theory Spec2Isabelle
  imports Complex_Main
begin

section \<open>Tensors and the two library operations the pruning functions use\<close>

text \<open>
  The pruning functions of \<^verbatim>\<open>run_classifier_nni.py\<close> work on two-dimensional,
  contiguous tensors. A tensor is its shape and its elements in row-major order, so
  that \<^verbatim>\<open>reshape\<close> only changes the shape and leaves the elements where they are, as
  a view does. Entries are real numbers: the rounding of floating-point arithmetic is
  not modelled.
\<close>

record 'a tensor =
  rows :: nat
  cols :: nat
  data :: "'a list"

datatype error =
    RuntimeError
  | IndexError
  | ZeroDivisionError
  | UnboundLocalError
  | ValueError

definition wf :: "'a tensor \<Rightarrow> bool" where
  "wf w \<longleftrightarrow> length (data w) = rows w * cols w"

definition bindE :: "error + 'a \<Rightarrow> ('a \<Rightarrow> error + 'b) \<Rightarrow> error + 'b" where
  "bindE m f = (case m of Inl e \<Rightarrow> Inl e | Inr x \<Rightarrow> f x)"

text \<open>\<^verbatim>\<open>int(x)\<close> of a Python float truncates towards zero.\<close>

definition py_int :: "real \<Rightarrow> int" where
  "py_int x = (if 0 \<le> x then \<lfloor>x\<rfloor> else \<lceil>x\<rceil>)"

text \<open>\<^verbatim>\<open>w.reshape(r, c)\<close> raises unless the element count is \<open>r * c\<close>.\<close>

definition reshape :: "'a tensor \<Rightarrow> nat \<Rightarrow> nat \<Rightarrow> error + 'a tensor" where
  "reshape w r c =
     (if rows w * cols w = r * c then Inr (w\<lparr>rows := r, cols := c\<rparr>) else Inl RuntimeError)"

text \<open>\<^verbatim>\<open>w.reshape(-1, 1)\<close>: the first dimension is inferred, one column.\<close>

definition reshape_col :: "'a tensor \<Rightarrow> 'a tensor" where
  "reshape_col w = w\<lparr>rows := rows w * cols w, cols := 1\<rparr>"

definition tabs :: "real tensor \<Rightarrow> real tensor" where
  "tabs w = w\<lparr>data := map abs (data w)\<rparr>"

text \<open>The tensor of shape \<open>r\<close> by \<open>c\<close> whose entry at row \<open>i\<close>, column \<open>j\<close> is \<open>f i j\<close>.\<close>

definition tensor_of :: "nat \<Rightarrow> nat \<Rightarrow> (nat \<Rightarrow> nat \<Rightarrow> 'a) \<Rightarrow> 'a tensor" where
  "tensor_of r c f = \<lparr>rows = r, cols = c, data = map (\<lambda>p. f (p div c) (p mod c)) [0..<r * c]\<rparr>"

text \<open>Column \<open>j\<close> of a tensor, read along dimension 0.\<close>

definition col :: "'a tensor \<Rightarrow> nat \<Rightarrow> 'a list" where
  "col w j = map (\<lambda>i. data w ! (i * cols w + j)) [0..<rows w]"

text \<open>
  The positions of a list in ascending order of their values. The sort is stable, so
  equal values keep their order of position: the lowest position comes first.
\<close>

definition argsort :: "real list \<Rightarrow> nat list" where
  "argsort xs = sort_key (\<lambda>i. xs ! i) [0..<length xs]"

text \<open>The positions of the \<open>k\<close> smallest entries of a list, as a set.\<close>

definition smallest :: "real list \<Rightarrow> nat \<Rightarrow> nat set" where
  "smallest xs k = set (take k (argsort xs))"

text \<open>
  \<^verbatim>\<open>torch.topk(x, k, largest=False, dim=0)\<close>: for every column, the positions of its
  \<open>k\<close> smallest entries, smallest first; the result has shape \<open>k\<close> by \<open>cols x\<close>. The call
  raises when \<open>k\<close> is negative or larger than the number of rows. The callers discard
  the values it returns as well, so only the index tensor is modelled. The library leaves
  the choice among equal entries open; the model takes the lowest position first.
\<close>

definition topk :: "real tensor \<Rightarrow> int \<Rightarrow> error + nat tensor" where
  "topk x k =
     (if k < 0 \<or> int (rows x) < k then Inl RuntimeError
      else Inr (tensor_of (nat k) (cols x) (\<lambda>i j. argsort (col x j) ! i)))"

text \<open>
  \<^verbatim>\<open>w.scatter_(0, indices, torch.cuda.FloatTensor(k, d2).fill_(0))\<close>: for every position
  \<open>(i, j)\<close> of the index tensor, \<open>w[indices[i][j]][j] = 0\<close>. Creating the source tensor
  raises for a negative \<open>k\<close>; the scatter raises when the index tensor is larger than the
  source in some dimension, wider than \<open>w\<close>, or holds a row number that \<open>w\<close> does not have.
\<close>

definition scatter_zeros :: "real tensor \<Rightarrow> nat tensor \<Rightarrow> int \<Rightarrow> nat \<Rightarrow> error + real tensor" where
  "scatter_zeros w indices k d2 =
     (if k < 0 then Inl RuntimeError
      else if int (rows indices) \<le> k \<and> cols indices \<le> d2 \<and> cols indices \<le> cols w
              \<and> list_all (\<lambda>v. v < rows w) (data indices)
      then Inr (w\<lparr>data := map (\<lambda>p. if p mod cols w < cols indices
                                       \<and> p div cols w \<in> set (col indices (p mod cols w))
                                    then 0 else data w ! p)
                               [0..<length (data w)]\<rparr>)
      else Inl RuntimeError)"

section \<open>The pruning functions\<close>

text \<open>
  \<^verbatim>\<open>do_sparse(w, ratio, param_tensor, model)\<close>, unstructured pruning. The weight is
  viewed as one column, the \<open>k = int(ratio * d1)\<close> entries of smallest absolute value are
  overwritten with zero in place, and the view is given its shape back. The assignment
  to \<^verbatim>\<open>model.state_dict()[param_tensor]\<close> writes into a dictionary that is dropped at
  once; the effect on the model is the in-place scatter. The Python function returns
  nothing; the model returns the local \<^verbatim>\<open>w\<close>, whose elements are the new contents of the
  weight.
\<close>

definition do_sparse :: "real tensor \<Rightarrow> real \<Rightarrow> error + real tensor" where
  "do_sparse w ratio =
     (let d1_old = rows w; d2_old = cols w;
          w1 = reshape_col w;
          d1 = rows w1; d2 = cols w1;
          k = py_int (ratio * real d1)
      in bindE (topk (tabs w1) k) (\<lambda>indices.
         bindE (scatter_zeros w1 indices k d2) (\<lambda>w2.
         reshape w2 d1_old d2_old)))"

text \<open>
  \<^verbatim>\<open>w.abs().sum(dim=1, keepdim=True)\<close>: one column holding, for every row, the sum of
  the absolute values of its entries.
\<close>

definition abs_sum_dim1 :: "real tensor \<Rightarrow> real tensor" where
  "abs_sum_dim1 w =
     tensor_of (rows w) 1 (\<lambda>i _. sum_list (map (\<lambda>j. \<bar>data w ! (i * cols w + j)\<bar>) [0..<cols w]))"

text \<open>The same magnitudes as a list, one per row: what Channel pruning ranks.\<close>

definition row_magnitudes :: "real tensor \<Rightarrow> real list" where
  "row_magnitudes w =
     map (\<lambda>i. sum_list (map (\<lambda>j. \<bar>data w ! (i * cols w + j)\<bar>) [0..<cols w])) [0..<rows w]"

text \<open>
  \<^verbatim>\<open>torch.cat([x] * n, 1)\<close> for a one-column \<open>x\<close>: \<open>n\<close> copies of the column side by
  side. An empty list of tensors is refused.
\<close>

definition cat_copies :: "real tensor \<Rightarrow> nat \<Rightarrow> error + real tensor" where
  "cat_copies x n =
     (if n = 0 then Inl RuntimeError else Inr (tensor_of (rows x) n (\<lambda>i _. data x ! i)))"

text \<open>
  \<^verbatim>\<open>do_sparse_chn(w, ratio, param_tensor, model)\<close>, row pruning: every column of
  \<^verbatim>\<open>new_w\<close> is the column of row magnitudes, so \<^verbatim>\<open>topk\<close> along dimension 0 picks in
  every column the rows of smallest magnitude, and the scatter zeroes them.
\<close>

definition do_sparse_chn :: "real tensor \<Rightarrow> real \<Rightarrow> error + real tensor" where
  "do_sparse_chn w ratio =
     (let d1 = rows w; d2 = cols w;
          k = py_int (ratio * real d1)
      in bindE (cat_copies (abs_sum_dim1 w) d2) (\<lambda>new_w.
         bindE (topk new_w k) (\<lambda>indices.
         scatter_zeros w indices k d2)))"

text \<open>
  \<^verbatim>\<open>do_sparse_mh(w, ratio, param_tensor, model, indices=None)\<close>: the weight is viewed
  as 12 rows of \<open>64 * 768\<close> entries, one row per attention head. Without a given index
  tensor, \<^verbatim>\<open>topk\<close> runs on \<^verbatim>\<open>w.abs()\<close> itself along dimension 0. The function returns
  the index tensor it used; the model returns the local \<^verbatim>\<open>w\<close> beside it.
\<close>

definition do_sparse_mh ::
  "real tensor \<Rightarrow> real \<Rightarrow> nat tensor option \<Rightarrow> error + (real tensor \<times> nat tensor)" where
  "do_sparse_mh w ratio indices_arg =
     bindE (reshape w 12 (64 * 768)) (\<lambda>w1.
       let d1 = rows w1; d2 = cols w1;
           k = py_int (ratio * real d1)
       in bindE (case indices_arg of None \<Rightarrow> topk (tabs w1) k | Some ix \<Rightarrow> Inr ix) (\<lambda>indices.
          bindE (scatter_zeros w1 indices k d2) (\<lambda>w2.
          bindE (reshape w2 768 768) (\<lambda>w3.
          Inr (w3, indices)))))"

section \<open>Notions used to state the results\<close>

text \<open>
  \<open>w\<close> with, in every column \<open>j\<close>, the entries zeroed whose rows hold the \<open>k\<close> smallest
  entries of column \<open>j\<close> of the score tensor \<open>x\<close>.
\<close>

definition zero_cols :: "real tensor \<Rightarrow> real tensor \<Rightarrow> nat \<Rightarrow> real tensor" where
  "zero_cols w x k =
     w\<lparr>data := map (\<lambda>p. if p div cols w \<in> smallest (col x (p mod cols w)) k
                         then 0 else data w ! p) [0..<rows w * cols w]\<rparr>"

text \<open>The view of a weight as 12 head-rows that \<^verbatim>\<open>do_sparse_mh\<close> works on.\<close>

definition heads :: "real tensor \<Rightarrow> real tensor" where
  "heads w = w\<lparr>rows := 12, cols := 64 * 768\<rparr>"

section \<open>Inputs of the scenarios\<close>

text \<open>The all-ones matrix of the Vanilla end-to-end scenario.\<close>

definition ones_matrix :: "nat \<Rightarrow> nat \<Rightarrow> real tensor" where
  "ones_matrix r c = \<lparr>rows = r, cols = c, data = replicate (r * c) 1\<rparr>"

definition zero_count :: "real tensor \<Rightarrow> nat" where
  "zero_count w = length (filter (\<lambda>x. x = 0) (data w))"

definition one_count :: "real tensor \<Rightarrow> nat" where
  "one_count w = length (filter (\<lambda>x. x = 1) (data w))"

definition w23 :: "real tensor" where
  "w23 = \<lparr>rows = 2, cols = 3, data = [3, -1, 2, -4, 1/2, 6]\<rparr>"

text \<open>
  A 768 by 768 matrix in which every head-row holds, in turn, the smallest entry of a
  column: the entry of head \<open>h\<close> at offset \<open>j\<close> within the head is \<open>(h + j) mod 12 + 1\<close>.
\<close>

definition skewed_value :: "real tensor" where
  "skewed_value =
     \<lparr>rows = 768, cols = 768,
      data = map (\<lambda>p. real ((p div 49152 + p mod 49152) mod 12 + 1)) [0..<589824]\<rparr>"

section \<open>The rate balancer\<close>

text \<open>
  \<^verbatim>\<open>balance(prune_rate, ratio)\<close> in \<^verbatim>\<open>main\<close>. The first loop accumulates the weighted sum
  of the rates and the sum of the weights over the 48 slots; the second loop overwrites
  every rate in place. Reading a slot the list does not have raises, and so does the
  division by a weighted mean of zero.
\<close>

definition whole_param :: "nat list" where
  "whole_param = [768 * 768 * 3, 768 * 768, 768 * 3072, 3072 * 768]"

fun balance_sums :: "real list \<Rightarrow> nat list \<Rightarrow> real \<times> real \<Rightarrow> error + real \<times> real" where
  "balance_sums prune_rate [] (rate_all, rate_one) = Inr (rate_all, rate_one)"
| "balance_sums prune_rate (i # is) (rate_all, rate_one) =
     (if i < length prune_rate
      then balance_sums prune_rate is
             (rate_all + prune_rate ! i * real (whole_param ! (i mod 4)),
              rate_one + real (whole_param ! (i mod 4)))
      else Inl IndexError)"

fun balance_rescale :: "real list \<Rightarrow> nat list \<Rightarrow> real \<Rightarrow> real \<Rightarrow> error + real list" where
  "balance_rescale prune_rate [] rate_all ratio = Inr prune_rate"
| "balance_rescale prune_rate (i # is) rate_all ratio =
     (if \<not> i < length prune_rate then Inl IndexError
      else if rate_all = 0 then Inl ZeroDivisionError
      else balance_rescale (prune_rate[i := prune_rate ! i / rate_all * ratio]) is rate_all ratio)"

definition balance :: "real list \<Rightarrow> real \<Rightarrow> error + real list" where
  "balance prune_rate ratio =
     bindE (balance_sums prune_rate [0..<48] (0, 0)) (\<lambda>(rate_all, rate_one).
       if rate_one = 0 then Inl ZeroDivisionError
       else balance_rescale prune_rate [0..<48] (rate_all / rate_one) ratio)"

text \<open>The parameter-count-weighted mean of 48 rates, with the weights of \<open>whole_param\<close>.\<close>

definition weighted_mean :: "real list \<Rightarrow> real" where
  "weighted_mean rates =
     sum_list (map (\<lambda>i. rates ! i * real (whole_param ! (i mod 4))) [0..<48])
       / sum_list (map (\<lambda>i. real (whole_param ! (i mod 4))) [0..<48])"

text \<open>A rate vector of 48 slots, the first half at one quarter, the second at three quarters.\<close>

definition mixed_rates :: "real list" where
  "mixed_rates = replicate 24 (1/4) @ replicate 24 (3/4)"

section \<open>Scores\<close>

text \<open>
  The scores are floating-point numbers that may be infinite or not a number; a finite
  one is a real number here. \<^verbatim>\<open>x != x\<close> holds for \<open>NaN\<close> only, and every comparison with
  \<open>NaN\<close> is false.
\<close>

datatype pyfloat = Fin real | PInf | NInf | NaN

fun fadd :: "pyfloat \<Rightarrow> pyfloat \<Rightarrow> pyfloat" where
  "fadd (Fin a) (Fin b) = Fin (a + b)"
| "fadd NaN y = NaN"
| "fadd x NaN = NaN"
| "fadd PInf NInf = NaN"
| "fadd NInf PInf = NaN"
| "fadd PInf y = PInf"
| "fadd x PInf = PInf"
| "fadd NInf y = NInf"
| "fadd x NInf = NInf"

text \<open>Division of a numpy number by a Python integer that is not negative.\<close>

fun fdiv :: "pyfloat \<Rightarrow> nat \<Rightarrow> pyfloat" where
  "fdiv (Fin a) n =
     (if n = 0 then (if a = 0 then NaN else if 0 < a then PInf else NInf)
      else Fin (a / real n))"
| "fdiv PInf n = PInf"
| "fdiv NInf n = NInf"
| "fdiv NaN n = NaN"

text \<open>\<^verbatim>\<open>x > y\<close>.\<close>

fun fgt :: "pyfloat \<Rightarrow> pyfloat \<Rightarrow> bool" where
  "fgt (Fin a) (Fin b) = (b < a)"
| "fgt NaN y = False"
| "fgt x NaN = False"
| "fgt x PInf = False"
| "fgt PInf y = True"
| "fgt NInf y = False"
| "fgt x NInf = True"

text \<open>\<^verbatim>\<open>np.argmax\<close> of one row: the first position of the largest entry; an empty row raises.\<close>

fun argmax_from :: "real list \<Rightarrow> nat \<Rightarrow> nat \<Rightarrow> real \<Rightarrow> nat" where
  "argmax_from [] i best v = best"
| "argmax_from (x # xs) i best v =
     (if v < x then argmax_from xs (Suc i) i x else argmax_from xs (Suc i) best v)"

definition argmax :: "real list \<Rightarrow> error + nat" where
  "argmax row = (case row of [] \<Rightarrow> Inl ValueError | x # xs \<Rightarrow> Inr (argmax_from xs 1 0 x))"

fun mapE :: "('a \<Rightarrow> error + 'b) \<Rightarrow> 'a list \<Rightarrow> error + 'b list" where
  "mapE f [] = Inr []"
| "mapE f (x # xs) = bindE (f x) (\<lambda>y. bindE (mapE f xs) (\<lambda>ys. Inr (y # ys)))"

text \<open>
  The counts of \<^verbatim>\<open>accuracy\<close> are numpy 64-bit integers: a sum or product outside the
  signed range wraps around, with a warning and no exception. Wrapping the value of an
  expression of sums and products once gives what wrapping after every operation gives.
\<close>

definition i64 :: "int \<Rightarrow> int" where
  "i64 x = (x + 2 ^ 63) mod 2 ^ 64 - 2 ^ 63"

text \<open>
  The quotient \<^verbatim>\<open>1.0*(tp*tn-fp*fn)/(((tp+fp)*(tp+fn)*(tn+fp)*(tn+fn))**0.5)\<close>, given the
  two integers: the square root of a negative product is \<open>NaN\<close>, and a division by zero
  gives \<open>NaN\<close> or an infinity, with a warning and no exception.
\<close>

definition matthews :: "int \<Rightarrow> int \<Rightarrow> pyfloat" where
  "matthews num den =
     (if den < 0 then NaN
      else if den = 0 then (if num = 0 then NaN else if 0 < num then PInf else NInf)
      else Fin (real_of_int num / sqrt (real_of_int den)))"

text \<open>
  \<^verbatim>\<open>accuracy(out, labels)\<close>: the number of rows whose prediction equals the label, and
  the correlation of the batch. A batch holds one label for every row of logits; arrays
  of different lengths are refused. The number of equal rows is at most the length of
  the arrays, which is below \<open>2 ^ 63\<close>, and does not wrap.
\<close>

definition accuracy :: "real list list \<Rightarrow> int list \<Rightarrow> error + int \<times> pyfloat" where
  "accuracy out labels =
     bindE (mapE argmax out) (\<lambda>outputs_nat.
       if length outputs_nat \<noteq> length labels then Inl ValueError
       else
         let outputs = map int outputs_nat;
             tp = i64 (sum_list (map2 (\<lambda>p l. p * l) outputs labels));
             tn = i64 (sum_list (map2 (\<lambda>p l. (1 - p) * (1 - l)) outputs labels));
             fp = i64 (sum_list (map2 (\<lambda>p l. p * (1 - l)) outputs labels));
             fn = i64 (sum_list (map2 (\<lambda>p l. (1 - p) * l) outputs labels));
             mc = matthews (i64 (tp * tn - fp * fn))
                           (i64 ((tp + fp) * (tp + fn) * (tn + fp) * (tn + fn)))
         in Inr (int (length (filter (\<lambda>(p, l). p = l) (zip outputs labels))), mc))"

text \<open>
  The evaluation loop of \<^verbatim>\<open>eval_after_train\<close> over the batches of logits and labels,
  and the averages taken after it. The average of the loss comes first and divides by
  the number of batches, so an empty evaluation set raises. The sum of the numbers of
  correct rows is at most the number of evaluation examples and does not wrap either.
\<close>

fun eval_loop ::
  "(real list list \<times> int list) list \<Rightarrow> int \<times> pyfloat \<times> nat \<times> nat
   \<Rightarrow> error + int \<times> pyfloat \<times> nat \<times> nat" where
  "eval_loop [] acc = Inr acc"
| "eval_loop ((logits, label_ids) # batches) (eval_accuracy, eval_mc, nb_eval_steps, nb_eval_examples) =
     bindE (accuracy logits label_ids) (\<lambda>(tmp_eval_accuracy, mc).
       eval_loop batches (eval_accuracy + tmp_eval_accuracy, fadd eval_mc mc,
                          nb_eval_steps + 1, nb_eval_examples + length label_ids))"

definition eval_metrics :: "(real list list \<times> int list) list \<Rightarrow> error + pyfloat \<times> pyfloat" where
  "eval_metrics batches =
     bindE (eval_loop batches (0, Fin 0, 0, 0))
       (\<lambda>(eval_accuracy, eval_mc, nb_eval_steps, nb_eval_examples).
          if nb_eval_steps = 0 then Inl ZeroDivisionError
          else Inr (fdiv (Fin (real_of_int eval_accuracy)) nb_eval_examples,
                    fdiv eval_mc nb_eval_steps))"

text \<open>
  The score of the epoch: a correlation that is not a number becomes 0, and for the task
  name \<^verbatim>\<open>cola\<close> the correlation replaces the accuracy.
\<close>

definition epoch_score :: "string \<Rightarrow> pyfloat \<Rightarrow> pyfloat \<Rightarrow> pyfloat" where
  "epoch_score task eval_accuracy eval_mc =
     (let eval_mc = (if eval_mc = NaN then Fin 0 else eval_mc);
          eval_accuracy = (if task = ''cola'' then eval_mc else eval_accuracy)
      in eval_accuracy)"

definition update_best :: "pyfloat \<Rightarrow> pyfloat \<Rightarrow> pyfloat" where
  "update_best best_acc eval_accuracy = (if fgt eval_accuracy best_acc then eval_accuracy else best_acc)"

text \<open>
  A batch of a two-class task in which every prediction equals its label, and the
  numbers of its examples of class 1 and of class 0.
\<close>

definition all_correct :: "real list list \<times> int list \<Rightarrow> bool" where
  "all_correct b =
     (case b of (logits, label_ids) \<Rightarrow>
        map_sum id (map int) (mapE argmax logits) = Inr label_ids \<and> set label_ids \<subseteq> {0, 1})"

definition class1 :: "real list list \<times> int list \<Rightarrow> int" where
  "class1 b = int (length (filter (\<lambda>l. l = 1) (snd b)))"

definition class0 :: "real list list \<times> int list \<Rightarrow> int" where
  "class0 b = int (length (filter (\<lambda>l. l = 0) (snd b)))"

text \<open>
  The correlation of such a batch in terms of its two class counts: the true positives
  are the examples of class 1, the true negatives those of class 0, and there are no
  false ones.
\<close>

definition counts_mc :: "real list list \<times> int list \<Rightarrow> pyfloat" where
  "counts_mc b = matthews (i64 (class1 b * class0 b))
                          (i64 (class1 b * class1 b * class0 b * class0 b))"

text \<open>
  Evaluation batches for the scenarios: one with an example of each class, one with two
  examples of class 1, and one with 55109 examples of each class; every row of logits
  predicts its label.
\<close>

definition mixed_batch :: "real list list \<times> int list" where
  "mixed_batch = ([[1, 0], [0, 1]], [0, 1])"

definition single_class_batch :: "real list list \<times> int list" where
  "single_class_batch = ([[0, 1], [0, 1]], [1, 1])"

definition large_batch :: "real list list \<times> int list" where
  "large_batch = (replicate 55109 [1, 0] @ replicate 55109 [0, 1],
                  replicate 55109 0 @ replicate 55109 1)"

section \<open>The training orchestrator\<close>

text \<open>
  The six weights of an encoder layer that the pruning loop touches, in the order of
  \<^verbatim>\<open>to_change\<close>, and the model: its encoder layers and its other parameters.
\<close>

record layer =
  self_query :: "real tensor"
  self_key :: "real tensor"
  self_value :: "real tensor"
  attention_output_dense :: "real tensor"
  intermediate_dense :: "real tensor"
  output_dense :: "real tensor"

record bert =
  layers :: "layer list"
  other_parameters :: "real tensor list"

text \<open>
  Models are objects on a heap and variables hold references to them, so that a model
  reached through two variables is one model. \<^verbatim>\<open>copy.deepcopy\<close> allocates a new object
  with the contents of the old one. The state also holds the scores sent to
  \<^verbatim>\<open>nni.report_intermediate_result\<close>, oldest first.
\<close>

record state =
  heap :: "bert list"
  reported :: "pyfloat list"

definition get :: "'a list \<Rightarrow> nat \<Rightarrow> error + 'a" where
  "get xs i = (if i < length xs then Inr (xs ! i) else Inl IndexError)"

definition deepcopy :: "nat \<Rightarrow> bert list \<Rightarrow> error + nat \<times> bert list" where
  "deepcopy ref h = bindE (get h ref) (\<lambda>m. Inr (length h, h @ [m]))"

text \<open>
  The parts of the run that are not in the file: the forward and backward pass, the
  optimizer and the data loaders. The forward pass is given the prune plan; the
  optimizer holds the gradients and its own state and overwrites the parameters of the
  model it was built from. \<open>train_dataloader e i\<close> is the list of batches drawn in epoch
  \<open>i\<close>, of the same length in every epoch; an evaluation batch is its inputs and its
  labels.
\<close>

record ('o, 'b, 'i) env =
  task_name :: string
  num_train_epochs :: nat
  gradient_accumulation_steps :: nat
  train_dataloader :: "nat \<Rightarrow> 'b list"
  eval_dataloader :: "('i \<times> int list) list"
  new_optimizer :: "bert \<Rightarrow> 'o"
  forward_backward :: "string list \<Rightarrow> real list \<Rightarrow> 'o \<Rightarrow> bert \<Rightarrow> 'b \<Rightarrow> 'o"
  optimizer_step :: "'o \<Rightarrow> bert \<Rightarrow> 'o \<times> bert"
  predict :: "string list \<Rightarrow> real list \<Rightarrow> bert \<Rightarrow> 'i \<Rightarrow> real list list"

text \<open>
  The scatter of a pruning function overwrites the storage of the weight; the weight
  keeps its own shape.
\<close>

definition in_place :: "real tensor \<Rightarrow> real tensor \<Rightarrow> real tensor" where
  "in_place w pruned = w\<lparr>data := data pruned\<rparr>"

text \<open>
  The body of the loop \<^verbatim>\<open>for layer_now in range(layer_num)\<close>, slot by slot. A type that
  matches none of the strings compared with leaves the weights of the slot alone.
\<close>

definition sparse_slot0 :: "string list \<Rightarrow> real list \<Rightarrow> nat \<Rightarrow> layer \<Rightarrow> error + layer" where
  "sparse_slot0 prune_type prune_rate layer_now l =
     bindE (get prune_type (layer_now * 4 + 0)) (\<lambda>t.
       if t = ''vanilla'' then
         bindE (get prune_rate (layer_now * 4 + 0)) (\<lambda>r.
         bindE (do_sparse (self_query l) (1 - r)) (\<lambda>q.
         bindE (do_sparse (self_key l) (1 - r)) (\<lambda>k.
         bindE (do_sparse (self_value l) (1 - r)) (\<lambda>v.
         Inr (l\<lparr>self_query := in_place (self_query l) q,
                 self_key := in_place (self_key l) k,
                 self_value := in_place (self_value l) v\<rparr>)))))
       else if t = ''channel'' then
         bindE (get prune_rate (layer_now * 4 + 0)) (\<lambda>r.
         bindE (do_sparse_chn (self_query l) (1 - r)) (\<lambda>q.
         bindE (do_sparse_chn (self_key l) (1 - r)) (\<lambda>k.
         bindE (do_sparse_chn (self_value l) (1 - r)) (\<lambda>v.
         Inr (l\<lparr>self_query := in_place (self_query l) q,
                 self_key := in_place (self_key l) k,
                 self_value := in_place (self_value l) v\<rparr>)))))
       else if t = ''multihead'' then
         bindE (get prune_rate (layer_now * 4 + 0)) (\<lambda>r.
         bindE (do_sparse_mh (self_value l) (1 - r) None) (\<lambda>(v, indices).
         bindE (do_sparse_mh (self_query l) (1 - r) (Some indices)) (\<lambda>(q, _).
         bindE (do_sparse_mh (self_key l) (1 - r) (Some indices)) (\<lambda>(k, _).
         Inr (l\<lparr>self_query := in_place (self_query l) q,
                 self_key := in_place (self_key l) k,
                 self_value := in_place (self_value l) v\<rparr>)))))
       else Inr l)"

definition sparse_slot1 :: "string list \<Rightarrow> real list \<Rightarrow> nat \<Rightarrow> layer \<Rightarrow> error + layer" where
  "sparse_slot1 prune_type prune_rate layer_now l =
     bindE (get prune_type (layer_now * 4 + 1)) (\<lambda>t.
       if t = ''vanilla'' then
         bindE (get prune_rate (layer_now * 4 + 1)) (\<lambda>r.
         bindE (do_sparse (attention_output_dense l) (1 - r)) (\<lambda>w.
         Inr (l\<lparr>attention_output_dense := in_place (attention_output_dense l) w\<rparr>)))
       else if t = ''channel'' then
         bindE (get prune_rate (layer_now * 4 + 1)) (\<lambda>r.
         bindE (do_sparse_chn (attention_output_dense l) (1 - r)) (\<lambda>w.
         Inr (l\<lparr>attention_output_dense := in_place (attention_output_dense l) w\<rparr>)))
       else Inr l)"

definition sparse_slot2 :: "string list \<Rightarrow> real list \<Rightarrow> nat \<Rightarrow> layer \<Rightarrow> error + layer" where
  "sparse_slot2 prune_type prune_rate layer_now l =
     bindE (get prune_type (layer_now * 4 + 2)) (\<lambda>t.
       if t = ''vanilla'' then
         bindE (get prune_rate (layer_now * 4 + 2)) (\<lambda>r.
         bindE (do_sparse (intermediate_dense l) (1 - r)) (\<lambda>w.
         Inr (l\<lparr>intermediate_dense := in_place (intermediate_dense l) w\<rparr>)))
       else if t = ''channel'' then
         bindE (get prune_rate (layer_now * 4 + 2)) (\<lambda>r.
         bindE (do_sparse_chn (intermediate_dense l) (1 - r)) (\<lambda>w.
         Inr (l\<lparr>intermediate_dense := in_place (intermediate_dense l) w\<rparr>)))
       else Inr l)"

definition sparse_slot3 :: "string list \<Rightarrow> real list \<Rightarrow> nat \<Rightarrow> layer \<Rightarrow> error + layer" where
  "sparse_slot3 prune_type prune_rate layer_now l =
     bindE (get prune_type (layer_now * 4 + 3)) (\<lambda>t.
       if t = ''vanilla'' then
         bindE (get prune_rate (layer_now * 4 + 3)) (\<lambda>r.
         bindE (do_sparse (output_dense l) (1 - r)) (\<lambda>w.
         Inr (l\<lparr>output_dense := in_place (output_dense l) w\<rparr>)))
       else if t = ''chn'' then
         bindE (get prune_rate (layer_now * 4 + 3)) (\<lambda>r.
         bindE (do_sparse_chn (output_dense l) (1 - r)) (\<lambda>w.
         Inr (l\<lparr>output_dense := in_place (output_dense l) w\<rparr>)))
       else Inr l)"

definition sparse_layer :: "string list \<Rightarrow> real list \<Rightarrow> nat \<Rightarrow> layer \<Rightarrow> error + layer" where
  "sparse_layer prune_type prune_rate layer_now l =
     bindE (sparse_slot0 prune_type prune_rate layer_now l) (\<lambda>l0.
     bindE (sparse_slot1 prune_type prune_rate layer_now l0) (\<lambda>l1.
     bindE (sparse_slot2 prune_type prune_rate layer_now l1) (\<lambda>l2.
     sparse_slot3 prune_type prune_rate layer_now l2)))"

definition layer_num :: nat where
  "layer_num = 12"

fun sparse_layers :: "string list \<Rightarrow> real list \<Rightarrow> nat list \<Rightarrow> layer list \<Rightarrow> error + layer list" where
  "sparse_layers prune_type prune_rate [] ls = Inr ls"
| "sparse_layers prune_type prune_rate (layer_now # rest) ls =
     bindE (get ls layer_now) (\<lambda>l.
     bindE (sparse_layer prune_type prune_rate layer_now l) (\<lambda>l'.
     sparse_layers prune_type prune_rate rest (ls[layer_now := l'])))"

text \<open>The pruning pass after a training step, on the model that \<open>model\<close> refers to.\<close>

definition sparse_pass :: "string list \<Rightarrow> real list \<Rightarrow> nat \<Rightarrow> bert list \<Rightarrow> error + bert list" where
  "sparse_pass prune_type prune_rate model h =
     bindE (get h model) (\<lambda>m.
     bindE (sparse_layers prune_type prune_rate [0..<layer_num] (layers m)) (\<lambda>ls.
     Inr (h[model := m\<lparr>layers := ls\<rparr>])))"

text \<open>
  One iteration of the loop over the training batches: forward and backward pass, the
  optimizer step on an accumulation boundary, and then, on every step, the pruning pass.
\<close>

definition train_step ::
  "('o, 'b, 'i) env \<Rightarrow> string list \<Rightarrow> real list \<Rightarrow> nat \<Rightarrow> nat \<Rightarrow> 'b \<Rightarrow> 'o \<times> bert list
   \<Rightarrow> error + 'o \<times> bert list" where
  "train_step e prune_type prune_rate model step batch = (\<lambda>(opt, h).
     bindE (get h model) (\<lambda>m.
       let opt1 = forward_backward e prune_type prune_rate opt m batch
       in if gradient_accumulation_steps e = 0 then Inl ZeroDivisionError
          else
            let (opt2, h2) =
                  (if (step + 1) mod gradient_accumulation_steps e = 0
                   then (let (opt', m') = optimizer_step e opt1 m in (opt', h[model := m']))
                   else (opt1, h))
            in bindE (sparse_pass prune_type prune_rate model h2) (\<lambda>h3. Inr (opt2, h3))))"

fun train_loop ::
  "('o, 'b, 'i) env \<Rightarrow> string list \<Rightarrow> real list \<Rightarrow> nat \<Rightarrow> nat \<Rightarrow> 'b list \<Rightarrow> 'o \<times> bert list
   \<Rightarrow> error + 'o \<times> bert list" where
  "train_loop e prune_type prune_rate model step [] s = Inr s"
| "train_loop e prune_type prune_rate model step (batch # batches) s =
     bindE (train_step e prune_type prune_rate model step batch s) (\<lambda>s'.
     train_loop e prune_type prune_rate model (step + 1) batches s')"

text \<open>
  One epoch: the training loop, then the evaluation of the pruned model and the score.
  With no training batch the loop variable \<^verbatim>\<open>step\<close> is unbound when the training loss
  is averaged.
\<close>

definition run_epoch ::
  "('o, 'b, 'i) env \<Rightarrow> string list \<Rightarrow> real list \<Rightarrow> nat \<Rightarrow> nat \<Rightarrow> 'o \<times> state \<times> pyfloat
   \<Rightarrow> error + 'o \<times> state \<times> pyfloat" where
  "run_epoch e prune_type prune_rate model epoch_i = (\<lambda>(opt, s, best_acc).
     bindE (train_loop e prune_type prune_rate model 0 (train_dataloader e epoch_i) (opt, heap s))
       (\<lambda>(opt', h).
     if train_dataloader e epoch_i = [] then Inl UnboundLocalError
     else
       bindE (get h model) (\<lambda>m.
       bindE (eval_metrics (map (\<lambda>(input_ids, label_ids).
                                   (predict e prune_type prune_rate m input_ids, label_ids))
                                (eval_dataloader e)))
         (\<lambda>(eval_accuracy, eval_mc).
       let score = epoch_score (task_name e) eval_accuracy eval_mc
       in Inr (opt', s\<lparr>heap := h, reported := reported s @ [score]\<rparr>,
               update_best best_acc score)))))"

fun run_epochs ::
  "('o, 'b, 'i) env \<Rightarrow> string list \<Rightarrow> real list \<Rightarrow> nat \<Rightarrow> nat list \<Rightarrow> 'o \<times> state \<times> pyfloat
   \<Rightarrow> error + 'o \<times> state \<times> pyfloat" where
  "run_epochs e prune_type prune_rate model [] acc = Inr acc"
| "run_epochs e prune_type prune_rate model (epoch_i # rest) acc =
     bindE (run_epoch e prune_type prune_rate model epoch_i acc) (\<lambda>acc'.
     run_epochs e prune_type prune_rate model rest acc')"

text \<open>
  \<^verbatim>\<open>prune_function.eval_after_train(prune_type, prune_rate)\<close>: \<open>self_model\<close> is the
  reference held in \<^verbatim>\<open>self.model\<close>. The run works on \<^verbatim>\<open>model = copy.deepcopy(self.model)\<close>
  and returns \<^verbatim>\<open>best_acc\<close>, which starts at 0.
\<close>

definition eval_after_train ::
  "('o, 'b, 'i) env \<Rightarrow> nat \<Rightarrow> string list \<Rightarrow> real list \<Rightarrow> state \<Rightarrow> error + pyfloat \<times> state" where
  "eval_after_train e self_model prune_type prune_rate s =
     bindE (deepcopy self_model (heap s)) (\<lambda>(model, h).
     bindE (get h model) (\<lambda>m.
     bindE (run_epochs e prune_type prune_rate model [0..<num_train_epochs e]
              (new_optimizer e m, s\<lparr>heap := h\<rparr>, Fin 0))
       (\<lambda>(opt, s', best_acc). Inr (best_acc, s'))))"

section \<open>Notions used to state the results of a run\<close>

text \<open>
  \<^verbatim>\<open>task_name = args.task_name.lower()\<close> in \<^verbatim>\<open>prune_function.__init__\<close>: the name under
  which the processor and the output mode of the task are looked up. The letters A to Z
  are mapped to a to z.
\<close>

definition lower_char :: "char \<Rightarrow> char" where
  "lower_char c =
     (let n = (of_char c :: nat) in if 65 \<le> n \<and> n \<le> 90 then char_of (n + 32) else c)"

definition py_lower :: "string \<Rightarrow> string" where
  "py_lower s = map lower_char s"

text \<open>
  The training loops of the epochs alone, without the evaluations: the heap after the
  training of each epoch.
\<close>

fun epoch_heaps ::
  "('o, 'b, 'i) env \<Rightarrow> string list \<Rightarrow> real list \<Rightarrow> nat \<Rightarrow> nat list \<Rightarrow> 'o \<times> bert list
   \<Rightarrow> error + bert list list" where
  "epoch_heaps e prune_type prune_rate model [] s = Inr []"
| "epoch_heaps e prune_type prune_rate model (epoch_i # rest) s =
     bindE (train_loop e prune_type prune_rate model 0 (train_dataloader e epoch_i) s) (\<lambda>s'.
     bindE (epoch_heaps e prune_type prune_rate model rest s') (\<lambda>hs.
     Inr (snd s' # hs)))"

section \<open>A small run\<close>

text \<open>
  A model of twelve layers whose six weights are all the 2 by 3 matrix \<open>w23\<close>, and a run
  of one epoch with one training batch and one evaluation batch of two examples, one of
  each class, both predicted wrongly. Forward pass, backward pass and optimizer leave the
  weights alone.
\<close>

definition toy_layer :: layer where
  "toy_layer = \<lparr>self_query = w23, self_key = w23, self_value = w23,
                 attention_output_dense = w23, intermediate_dense = w23, output_dense = w23\<rparr>"

definition toy_bert :: bert where
  "toy_bert = \<lparr>layers = replicate 12 toy_layer, other_parameters = []\<rparr>"

definition toy_env :: "(unit, unit, unit) env" where
  "toy_env = \<lparr>task_name = ''cola'', num_train_epochs = 1, gradient_accumulation_steps = 1,
               train_dataloader = (\<lambda>epoch_i. [()]),
               eval_dataloader = [((), [0, 1])],
               new_optimizer = (\<lambda>m. ()),
               forward_backward = (\<lambda>prune_type prune_rate opt m batch. opt),
               optimizer_step = (\<lambda>opt m. (opt, m)),
               predict = (\<lambda>prune_type prune_rate m input_ids. [[0, 1], [1, 0]])\<rparr>"

definition toy_state :: state where
  "toy_state = \<lparr>heap = [toy_bert], reported = []\<rparr>"

text \<open>A plan for one layer that asks for Channel pruning of every slot but the first.\<close>

definition channel_plan :: "string list" where
  "channel_plan = [''vanilla'', ''channel'', ''channel'', ''channel'']"

definition w23_rows_pruned :: "real tensor" where
  "w23_rows_pruned = \<lparr>rows = 2, cols = 3, data = [0, 0, 0, -4, 1/2, 6]\<rparr>"

definition w23_entries_pruned :: "real tensor" where
  "w23_entries_pruned = \<lparr>rows = 2, cols = 3, data = [3, 0, 0, -4, 0, 6]\<rparr>"

definition vanilla_plan :: "string list" where
  "vanilla_plan = replicate 48 ''vanilla''"

definition half_rates :: "real list" where
  "half_rates = replicate 48 (1/2)"

definition toy_layer_pruned :: layer where
  "toy_layer_pruned =
     \<lparr>self_query = w23_entries_pruned, self_key = w23_entries_pruned,
      self_value = w23_entries_pruned, attention_output_dense = w23_entries_pruned,
      intermediate_dense = w23_entries_pruned, output_dense = w23_entries_pruned\<rparr>"

definition toy_bert_pruned :: bert where
  "toy_bert_pruned = \<lparr>layers = replicate 12 toy_layer_pruned, other_parameters = []\<rparr>"

text \<open>
  The small run under another task name and with other predictions: both examples
  predicted as class 1, once for a task named \<^verbatim>\<open>CoLA\<close> and once for \<^verbatim>\<open>sst-2\<close>.
\<close>

definition toy_env_with :: "string \<Rightarrow> real list list \<Rightarrow> (unit, unit, unit) env" where
  "toy_env_with t logits =
     toy_env\<lparr>task_name := t, predict := (\<lambda>prune_type prune_rate m input_ids. logits)\<rparr>"

definition toy_env_upper :: "(unit, unit, unit) env" where
  "toy_env_upper = toy_env_with ''CoLA'' [[0, 1], [0, 1]]"

definition toy_env_sst :: "(unit, unit, unit) env" where
  "toy_env_sst = toy_env_with ''sst-2'' [[0, 1], [0, 1]]"

section \<open>Row-major positions and the smallest entries of a list\<close>

lemma row_major_div: "j < c \<Longrightarrow> (i * c + j) div c = (i::nat)"
  by simp

lemma row_major_mod: "j < c \<Longrightarrow> (i * c + j) mod c = (j::nat)"
  by simp

lemma row_major_less: "i < r \<Longrightarrow> j < c \<Longrightarrow> i * c + j < r * (c::nat)"
proof -
  assume a: "i < r" "j < c"
  then have "i * c + j < i * c + c" by simp
  also have "\<dots> = Suc i * c" by simp
  also have "\<dots> \<le> r * c" using a(1) by (intro mult_le_mono1) simp
  finally show ?thesis .
qed

lemma col_tensor_of: "j < c \<Longrightarrow> col (tensor_of r c f) j = map (\<lambda>i. f i j) [0..<r]"
  by (simp add: col_def tensor_of_def row_major_less)

lemma length_col: "length (col x j) = rows x"
  by (simp add: col_def)

lemma length_argsort: "length (argsort xs) = length xs"
  by (simp add: argsort_def)

lemma set_argsort: "set (argsort xs) = {..<length xs}"
  by (auto simp: argsort_def)

lemma distinct_argsort: "distinct (argsort xs)"
  by (simp add: argsort_def)

lemma sorted_argsort: "sorted (map ((!) xs) (argsort xs))"
  by (simp add: argsort_def)

lemma take_argsort_map: "k \<le> length xs \<Longrightarrow> map (\<lambda>i. argsort xs ! i) [0..<k] = take k (argsort xs)"
  by (metis length_argsort map_nth take_map take_upt add_0 )

lemma smallest_subset: "smallest xs k \<subseteq> {..<length xs}"
  using set_take_subset[of k "argsort xs"] by (auto simp: smallest_def set_argsort)

lemma finite_smallest: "finite (smallest xs k)"
  by (simp add: smallest_def)

lemma card_smallest: "k \<le> length xs \<Longrightarrow> card (smallest xs k) = k"
  by (simp add: smallest_def distinct_card distinct_take distinct_argsort length_argsort)

lemma smallest_le:
  assumes "p \<in> smallest xs k" "q < length xs" "q \<notin> smallest xs k"
  shows "xs ! p \<le> xs ! q"
proof -
  let ?s = "argsort xs"
  have "q \<in> set ?s" using assms(2) by (simp add: set_argsort)
  then have "q \<in> set (take k ?s) \<union> set (drop k ?s)"
    by (metis append_take_drop_id set_append)
  then have q: "q \<in> set (drop k ?s)" using assms(3) by (simp add: smallest_def)
  have "sorted (map ((!) xs) (take k ?s @ drop k ?s))"
    using sorted_argsort[of xs] by simp
  then have "\<forall>a\<in>set (take k ?s). \<forall>b\<in>set (drop k ?s). xs ! a \<le> xs ! b"
    unfolding map_append sorted_append by auto
  then show ?thesis using assms(1) q by (auto simp: smallest_def)
qed

lemma smallest_zero:
  assumes nonneg: "\<forall>i<length xs. 0 \<le> xs ! i"
    and k: "k \<le> card {i. i < length xs \<and> xs ! i = 0}"
    and p: "p \<in> smallest xs k"
  shows "xs ! p = 0"
proof (rule ccontr)
  assume ne: "xs ! p \<noteq> 0"
  let ?Z = "{i. i < length xs \<and> xs ! i = 0}"
  have plt: "p < length xs" using p smallest_subset[of xs k] by auto
  then have pos: "0 < xs ! p" using nonneg ne by (simp add: order_less_le)
  have "?Z \<subseteq> smallest xs k - {p}"
  proof
    fix q assume q: "q \<in> ?Z"
    have "q \<in> smallest xs k"
    proof (rule ccontr)
      assume nq: "q \<notin> smallest xs k"
      have "q < length xs" using q by simp
      then have "xs ! p \<le> xs ! q" using nq by (rule smallest_le[OF p])
      then show False using pos q by simp
    qed
    moreover have "q \<noteq> p" using q ne by auto
    ultimately show "q \<in> smallest xs k - {p}" by simp
  qed
  then have "card ?Z \<le> card (smallest xs k - {p})"
    by (intro card_mono) (simp_all add: finite_smallest)
  also have "\<dots> < card (smallest xs k)"
    using p by (intro psubset_card_mono) (auto simp: finite_smallest)
  also have "\<dots> \<le> k" by (simp add: smallest_def) (metis card_length length_take min.cobounded2 order_trans)
  finally show False using k by simp
qed

lemma zeroed_smallest_fix:
  fixes ys :: "real list"
  assumes k: "k \<le> length ys"
    and ys': "ys' = map (\<lambda>p. if p \<in> smallest (map abs ys) k then 0 else ys ! p) [0..<length ys]"
    and p: "p \<in> smallest (map abs ys') k"
  shows "ys' ! p = 0"
proof -
  let ?S = "smallest (map abs ys) k"
  have len: "length ys' = length ys" by (simp add: ys')
  have sub: "?S \<subseteq> {i. i < length (map abs ys') \<and> map abs ys' ! i = 0}"
    using smallest_subset[of "map abs ys" k] by (auto simp: ys')
  have "k = card ?S" using card_smallest[of k "map abs ys"] k by simp
  also have "\<dots> \<le> card {i. i < length (map abs ys') \<and> map abs ys' ! i = 0}"
    by (rule card_mono[OF _ sub]) simp
  finally have "map abs ys' ! p = 0"
    by (intro smallest_zero[OF _ _ p]) simp_all
  moreover have "p < length ys'" using p smallest_subset[of "map abs ys'" k] by auto
  ultimately show ?thesis by simp
qed

section \<open>Selection followed by scatter\<close>

lemma topk_ok:
  "0 \<le> k \<Longrightarrow> k \<le> int (rows x) \<Longrightarrow>
   topk x k = Inr (tensor_of (nat k) (cols x) (\<lambda>i j. argsort (col x j) ! i))"
  by (simp add: topk_def)

lemma topk_out_of_range: "k < 0 \<or> int (rows x) < k \<Longrightarrow> topk x k = Inl RuntimeError"
  by (simp add: topk_def)

lemma col_topk_indices:
  assumes "j < cols x" "n \<le> rows x"
  shows "col (tensor_of n (cols x) (\<lambda>i j. argsort (col x j) ! i)) j = take n (argsort (col x j))"
  using assms by (simp add: col_tensor_of take_argsort_map length_col)

lemma topk_indices_in_range:
  assumes "n \<le> rows x"
  shows "list_all (\<lambda>v. v < rows x) (data (tensor_of n (cols x) (\<lambda>i j. argsort (col x j) ! i)))"
proof -
  have "argsort (col x j) ! i < rows x" if "i < n" for i j
  proof -
    have "i < length (argsort (col x j))" using that assms by (simp add: length_argsort length_col)
    then have "argsort (col x j) ! i \<in> set (argsort (col x j))" by (rule nth_mem)
    then show ?thesis by (simp add: set_argsort length_col)
  qed
  moreover have "p div cols x < n" if "p < n * cols x" for p
    using that by (simp add: less_mult_imp_div_less)
  ultimately show ?thesis
    by (simp add: tensor_of_def list_all_iff)
qed

text \<open>The selection and the scatter together: what \<^verbatim>\<open>topk\<close> followed by \<^verbatim>\<open>scatter_\<close> does to \<open>w\<close>.\<close>

lemma prune_cols:
  assumes "wf w" "rows x = rows w" "cols x = cols w" "0 \<le> k" "k \<le> int (rows w)"
  shows "bindE (topk x k) (\<lambda>indices. scatter_zeros w indices k (cols w)) =
         Inr (w\<lparr>data := map (\<lambda>p. if p div cols w \<in> smallest (col x (p mod cols w)) (nat k)
                                   then 0 else data w ! p) [0..<rows w * cols w]\<rparr>)"
proof -
  let ?ix = "tensor_of (nat k) (cols x) (\<lambda>i j. argsort (col x j) ! i)"
  have n: "nat k \<le> rows x" using assms by simp
  have t: "topk x k = Inr ?ix" using assms by (simp add: topk_ok)
  have shape: "rows ?ix = nat k" "cols ?ix = cols w" using assms by (simp_all add: tensor_of_def)
  have rng: "list_all (\<lambda>v. v < rows w) (data ?ix)"
    using topk_indices_in_range[OF n] assms(2) by simp
  have ent: "(p mod cols w < cols ?ix \<and> p div cols w \<in> set (col ?ix (p mod cols w)))
             = (p div cols w \<in> smallest (col x (p mod cols w)) (nat k))"
    if "p < rows w * cols w" for p
  proof -
    have "0 < cols w" using that by (cases "cols w") auto
    then have "p mod cols w < cols x" using assms(3) by simp
    then show ?thesis using col_topk_indices[OF _ n] shape assms(3) by (simp add: smallest_def)
  qed
  have len: "length (data w) = rows w * cols w" using assms(1) by (simp add: wf_def)
  have "scatter_zeros w ?ix k (cols w) =
        Inr (w\<lparr>data := map (\<lambda>p. if p mod cols w < cols ?ix
                                       \<and> p div cols w \<in> set (col ?ix (p mod cols w))
                                    then 0 else data w ! p) [0..<length (data w)]\<rparr>)"
    using assms(4) shape rng by (simp add: scatter_zeros_def)
  also have "map (\<lambda>p. if p mod cols w < cols ?ix \<and> p div cols w \<in> set (col ?ix (p mod cols w))
                       then 0 else data w ! p) [0..<length (data w)]
           = map (\<lambda>p. if p div cols w \<in> smallest (col x (p mod cols w)) (nat k)
                       then 0 else data w ! p) [0..<rows w * cols w]"
    unfolding len by (rule map_cong[OF refl]) (simp add: ent)
  finally show ?thesis by (simp add: t bindE_def)
qed

lemma prune_cols_zero_cols:
  assumes "wf w" "rows x = rows w" "cols x = cols w" "0 \<le> k" "k \<le> int (rows w)"
  shows "bindE (topk x k) (\<lambda>indices. scatter_zeros w indices k (cols w)) = Inr (zero_cols w x (nat k))"
  using prune_cols[OF assms] by (simp add: zero_cols_def)

lemma zero_cols_shape [simp]:
  "rows (zero_cols w x k) = rows w" "cols (zero_cols w x k) = cols w"
  "length (data (zero_cols w x k)) = rows w * cols w"
  by (simp_all add: zero_cols_def)

lemma wf_zero_cols: "wf (zero_cols w x k)"
  by (simp add: wf_def)

lemma nth_zero_cols:
  "p < rows w * cols w \<Longrightarrow>
   data (zero_cols w x k) ! p
     = (if p div cols w \<in> smallest (col x (p mod cols w)) k then 0 else data w ! p)"
  by (simp add: zero_cols_def)

lemma col_tabs:
  assumes "wf w" "j < cols w"
  shows "col (tabs w) j = map abs (col w j)"
  using assms by (simp add: col_def tabs_def wf_def row_major_less)

lemma col_zero_cols:
  assumes "j < cols w"
  shows "col (zero_cols w x k) j =
         map (\<lambda>i. if i \<in> smallest (col x j) k then 0 else data w ! (i * cols w + j)) [0..<rows w]"
  using assms by (simp add: col_def zero_cols_def row_major_less)

lemma topk_scatter:
  assumes "wf w" "rows x = rows w" "cols x = cols w" "0 \<le> k" "k \<le> int (rows w)"
  shows "topk x k = Inr (tensor_of (nat k) (cols x) (\<lambda>i j. argsort (col x j) ! i))"
    and "scatter_zeros w (tensor_of (nat k) (cols x) (\<lambda>i j. argsort (col x j) ! i)) k (cols w)
         = Inr (zero_cols w x (nat k))"
proof -
  show t: "topk x k = Inr (tensor_of (nat k) (cols x) (\<lambda>i j. argsort (col x j) ! i))"
    using assms by (simp add: topk_ok)
  show "scatter_zeros w (tensor_of (nat k) (cols x) (\<lambda>i j. argsort (col x j) ! i)) k (cols w)
         = Inr (zero_cols w x (nat k))"
    using prune_cols_zero_cols[OF assms] by (simp add: t bindE_def)
qed

lemma py_int_fraction:
  assumes "0 \<le> x" "x \<le> 1"
  shows "py_int (x * real n) = \<lfloor>x * real n\<rfloor>" "0 \<le> py_int (x * real n)" "py_int (x * real n) \<le> int n"
proof -
  have nn: "0 \<le> x * real n" using assms by simp
  then show a: "py_int (x * real n) = \<lfloor>x * real n\<rfloor>" by (simp add: py_int_def)
  show "0 \<le> py_int (x * real n)" using nn a by simp
  have "x * real n \<le> real n" using assms by (simp add: mult_left_le_one_le)
  then have "\<lfloor>x * real n\<rfloor> \<le> \<lfloor>real n\<rfloor>" by (rule floor_mono)
  then show "py_int (x * real n) \<le> int n" using a by simp
qed

lemma nat_floor_fraction:
  assumes "0 \<le> x" "x \<le> 1"
  shows "nat \<lfloor>x * real n\<rfloor> \<le> n"
proof -
  have "x * real n \<le> real n" using assms by (simp add: mult_left_le_one_le)
  then have "\<lfloor>x * real n\<rfloor> \<le> \<lfloor>real n\<rfloor>" by (rule floor_mono)
  then show ?thesis by simp
qed

section \<open>What the pruning functions return\<close>

lemma col_vanilla:
  "wf w \<Longrightarrow> col (tabs (reshape_col w)) 0 = map abs (data w)"
  by (auto simp: col_def tabs_def reshape_col_def wf_def intro!: nth_equalityI)

lemma do_sparse_out_of_range:
  assumes "py_int (ratio * real (rows w * cols w)) < 0
           \<or> int (rows w * cols w) < py_int (ratio * real (rows w * cols w))"
  shows "do_sparse w ratio = Inl RuntimeError"
proof -
  have "topk (tabs (reshape_col w)) (py_int (ratio * real (rows w * cols w))) = Inl RuntimeError"
    by (rule topk_out_of_range) (use assms in \<open>simp add: tabs_def reshape_col_def\<close>)
  then show ?thesis
    unfolding do_sparse_def Let_def by (simp add: bindE_def reshape_col_def)
qed

lemma do_sparse_in_range:
  assumes "wf w" "0 \<le> py_int (ratio * real (rows w * cols w))"
    "py_int (ratio * real (rows w * cols w)) \<le> int (rows w * cols w)"
  shows "do_sparse w ratio =
         Inr (w\<lparr>data := map (\<lambda>p. if p \<in> smallest (map abs (data w))
                                           (nat (py_int (ratio * real (rows w * cols w))))
                                   then 0 else data w ! p) [0..<rows w * cols w]\<rparr>)"
proof -
  let ?w1 = "reshape_col w"
  let ?k = "py_int (ratio * real (rows ?w1))"
  have r1: "rows ?w1 = rows w * cols w" "cols ?w1 = 1" by (simp_all add: reshape_col_def)
  have wf1: "wf ?w1" using assms(1) by (simp add: wf_def reshape_col_def)
  have k: "0 \<le> ?k" "?k \<le> int (rows ?w1)" using assms(2,3) unfolding r1 by simp_all
  have "bindE (topk (tabs ?w1) ?k) (\<lambda>indices. scatter_zeros ?w1 indices ?k (cols ?w1)) =
        Inr (?w1\<lparr>data := map (\<lambda>p. if p div cols ?w1 \<in> smallest (col (tabs ?w1) (p mod cols ?w1)) (nat ?k)
                                   then 0 else data ?w1 ! p) [0..<rows ?w1 * cols ?w1]\<rparr>)"
    by (rule prune_cols[OF wf1 _ _ k]) (simp_all add: tabs_def)
  then have "bindE (topk (tabs ?w1) ?k) (\<lambda>indices. scatter_zeros ?w1 indices ?k (cols ?w1)) =
        Inr (?w1\<lparr>data := map (\<lambda>p. if p \<in> smallest (map abs (data w)) (nat ?k)
                                   then 0 else data w ! p) [0..<rows w * cols w]\<rparr>)"
    using col_vanilla[OF assms(1)] by (simp add: r1) (simp add: reshape_col_def)
  then show ?thesis
    unfolding do_sparse_def Let_def
    by (auto simp: bindE_def r1 reshape_def reshape_col_def split: sum.splits)
qed

lemma do_sparse_result:
  assumes "wf w" "0 \<le> ratio" "ratio \<le> 1"
  shows "do_sparse w ratio =
         Inr (w\<lparr>data := map (\<lambda>p. if p \<in> smallest (map abs (data w)) (nat \<lfloor>ratio * real (rows w * cols w)\<rfloor>)
                                   then 0 else data w ! p) [0..<rows w * cols w]\<rparr>)"
  using do_sparse_in_range[OF assms(1), of ratio]
    py_int_fraction[OF assms(2,3), of "rows w * cols w"] by simp

lemma length_row_magnitudes: "length (row_magnitudes w) = rows w"
  by (simp add: row_magnitudes_def)

lemma col_new_w:
  assumes "j < cols w"
  shows "col (tensor_of (rows w) (cols w) (\<lambda>i _. data (abs_sum_dim1 w) ! i)) j = row_magnitudes w"
proof -
  have "data (abs_sum_dim1 w) = row_magnitudes w"
    by (simp add: abs_sum_dim1_def tensor_of_def row_magnitudes_def)
  then show ?thesis
    using assms by (simp add: col_tensor_of) (simp add: row_magnitudes_def)
qed

lemma do_sparse_chn_out_of_range:
  assumes "cols w = 0 \<or> py_int (ratio * real (rows w)) < 0 \<or> int (rows w) < py_int (ratio * real (rows w))"
  shows "do_sparse_chn w ratio = Inl RuntimeError"
proof (cases "cols w = 0")
  case True
  then show ?thesis unfolding do_sparse_chn_def Let_def by (simp add: cat_copies_def bindE_def)
next
  case False
  let ?x = "tensor_of (rows w) (cols w) (\<lambda>i _. data (abs_sum_dim1 w) ! i)"
  have cat: "cat_copies (abs_sum_dim1 w) (cols w) = Inr ?x"
    using False by (simp add: cat_copies_def abs_sum_dim1_def tensor_of_def)
  have "topk ?x (py_int (ratio * real (rows w))) = Inl RuntimeError"
    by (rule topk_out_of_range) (use assms False in \<open>simp add: tensor_of_def\<close>)
  then show ?thesis unfolding do_sparse_chn_def Let_def by (simp add: cat bindE_def)
qed

lemma do_sparse_chn_in_range:
  assumes "wf w" "0 < cols w" "0 \<le> py_int (ratio * real (rows w))"
    "py_int (ratio * real (rows w)) \<le> int (rows w)"
  shows "do_sparse_chn w ratio =
         Inr (w\<lparr>data := map (\<lambda>p. if p div cols w \<in> smallest (row_magnitudes w)
                                                       (nat (py_int (ratio * real (rows w))))
                                   then 0 else data w ! p) [0..<rows w * cols w]\<rparr>)"
proof -
  let ?x = "tensor_of (rows w) (cols w) (\<lambda>i _. data (abs_sum_dim1 w) ! i)"
  let ?k = "py_int (ratio * real (rows w))"
  have cat: "cat_copies (abs_sum_dim1 w) (cols w) = Inr ?x"
    using assms(2) by (simp add: cat_copies_def abs_sum_dim1_def tensor_of_def)
  have "bindE (topk ?x ?k) (\<lambda>indices. scatter_zeros w indices ?k (cols w)) =
        Inr (w\<lparr>data := map (\<lambda>p. if p div cols w \<in> smallest (col ?x (p mod cols w)) (nat ?k)
                                   then 0 else data w ! p) [0..<rows w * cols w]\<rparr>)"
    by (rule prune_cols[OF assms(1) _ _ assms(3,4)]) (simp_all add: tensor_of_def)
  also have "map (\<lambda>p. if p div cols w \<in> smallest (col ?x (p mod cols w)) (nat ?k)
                       then 0 else data w ! p) [0..<rows w * cols w]
           = map (\<lambda>p. if p div cols w \<in> smallest (row_magnitudes w) (nat ?k)
                       then 0 else data w ! p) [0..<rows w * cols w]"
    using assms(2) by (intro map_cong[OF refl]) (simp add: col_new_w)
  finally show ?thesis
    unfolding do_sparse_chn_def Let_def by (simp add: cat bindE_def)
qed

lemma do_sparse_chn_result:
  assumes "wf w" "0 < cols w" "0 \<le> ratio" "ratio \<le> 1"
  shows "do_sparse_chn w ratio =
         Inr (w\<lparr>data := map (\<lambda>p. if p div cols w \<in> smallest (row_magnitudes w) (nat \<lfloor>ratio * real (rows w)\<rfloor>)
                                   then 0 else data w ! p) [0..<rows w * cols w]\<rparr>)"
  using do_sparse_chn_in_range[OF assms(1,2), of ratio]
    py_int_fraction[OF assms(3,4), of "rows w"] by simp

lemma heads_shape [simp]:
  "rows (heads w) = 12" "cols (heads w) = 49152" "data (heads w) = data w"
  by (simp_all add: heads_def)

lemma wf_heads: "length (data w) = 589824 \<Longrightarrow> wf (heads w)"
  by (simp add: wf_def)

lemma reshape_heads: "rows w * cols w = 589824 \<Longrightarrow> reshape w 12 (64 * 768) = Inr (heads w)"
  by (simp add: reshape_def heads_def)

lemma reshape_fails: "rows w * cols w \<noteq> 589824 \<Longrightarrow> reshape w 12 49152 = Inl RuntimeError"
  by (simp add: reshape_def)

lemma do_sparse_mh_wrong_size:
  "rows w * cols w \<noteq> 589824 \<Longrightarrow> do_sparse_mh w ratio ixo = Inl RuntimeError"
  unfolding do_sparse_mh_def by (simp add: reshape_fails bindE_def)

lemma do_sparse_mh_out_of_range:
  assumes "py_int (ratio * 12) < 0 \<or> 12 < py_int (ratio * 12)"
  shows "do_sparse_mh w ratio None = Inl RuntimeError"
proof (cases "rows w * cols w = 589824")
  case False
  then show ?thesis by (rule do_sparse_mh_wrong_size)
next
  case True
  have "topk (tabs (heads w)) (py_int (ratio * 12)) = Inl RuntimeError"
    by (rule topk_out_of_range) (use assms in \<open>simp add: tabs_def\<close>)
  then show ?thesis
    unfolding do_sparse_mh_def reshape_heads[OF True] Let_def by (simp add: bindE_def)
qed

lemma do_sparse_mh_in_range:
  assumes "wf w" "rows w * cols w = 589824" "0 \<le> py_int (ratio * 12)" "py_int (ratio * 12) \<le> 12"
  shows "do_sparse_mh w ratio None =
         Inr ((zero_cols (heads w) (tabs (heads w)) (nat (py_int (ratio * 12))))\<lparr>rows := 768, cols := 768\<rparr>,
              tensor_of (nat (py_int (ratio * 12))) 49152 (\<lambda>i j. argsort (col (tabs (heads w)) j) ! i))"
proof -
  let ?w1 = "heads w"
  let ?k = "py_int (ratio * real (rows ?w1))"
  have wf1: "wf ?w1" using assms(1,2) by (simp add: wf_def)
  have k: "?k = py_int (ratio * 12)" "0 \<le> ?k" "?k \<le> int (rows ?w1)"
    using assms(3,4) by simp_all
  have x: "rows (tabs ?w1) = rows ?w1" "cols (tabs ?w1) = cols ?w1" by (simp_all add: tabs_def)
  note ts = topk_scatter[OF wf1 x k(2,3)]
  have rs: "reshape (zero_cols ?w1 (tabs ?w1) (nat ?k)) 768 768
            = Inr ((zero_cols ?w1 (tabs ?w1) (nat ?k))\<lparr>rows := 768, cols := 768\<rparr>)"
    by (simp add: reshape_def)
  show ?thesis
    unfolding do_sparse_mh_def reshape_heads[OF assms(2)] Let_def
    using ts rs by (simp add: bindE_def tabs_def)
qed

lemma do_sparse_mh_None:
  assumes "wf w" "rows w * cols w = 589824" "0 \<le> ratio" "ratio \<le> 1"
  shows "do_sparse_mh w ratio None =
         Inr ((zero_cols (heads w) (tabs (heads w)) (nat \<lfloor>ratio * 12\<rfloor>))\<lparr>rows := 768, cols := 768\<rparr>,
              tensor_of (nat \<lfloor>ratio * 12\<rfloor>) 49152 (\<lambda>i j. argsort (col (tabs (heads w)) j) ! i))"
  using do_sparse_mh_in_range[OF assms(1,2), of ratio]
    py_int_fraction[OF assms(3,4), of 12] by simp

lemma do_sparse_mh_Some:
  assumes "wf w" "rows w * cols w = 589824" "0 \<le> ratio" "ratio \<le> 1"
    and "wf v" "rows v * cols v = 589824"
    and "ix = tensor_of (nat \<lfloor>ratio * 12\<rfloor>) 49152 (\<lambda>i j. argsort (col (tabs (heads v)) j) ! i)"
  shows "do_sparse_mh w ratio (Some ix) =
         Inr ((zero_cols (heads w) (tabs (heads v)) (nat \<lfloor>ratio * 12\<rfloor>))\<lparr>rows := 768, cols := 768\<rparr>, ix)"
proof -
  let ?w1 = "heads w" and ?x = "tabs (heads v)"
  let ?k = "py_int (ratio * real (rows ?w1))"
  have wf1: "wf ?w1" using assms(1,2) by (simp add: wf_def)
  have k: "?k = \<lfloor>ratio * 12\<rfloor>" "0 \<le> ?k" "?k \<le> int (rows ?w1)"
    using py_int_fraction[OF assms(3,4), of "rows ?w1"] by simp_all
  have x: "rows ?x = rows ?w1" "cols ?x = cols ?w1" by (simp_all add: tabs_def)
  note ts = topk_scatter(2)[OF wf1 x k(2,3)]
  have rs: "reshape (zero_cols ?w1 ?x (nat ?k)) 768 768
            = Inr ((zero_cols ?w1 ?x (nat ?k))\<lparr>rows := 768, cols := 768\<rparr>)"
    by (simp add: reshape_def)
  show ?thesis
    unfolding do_sparse_mh_def reshape_heads[OF assms(2)] Let_def
    using ts rs k(1) by (simp add: bindE_def tabs_def assms(7))
qed

lemma do_sparse_mh_success:
  assumes "do_sparse_mh w ratio ixo = Inr res"
  shows "rows w * cols w = 589824"
proof (rule ccontr)
  assume "rows w * cols w \<noteq> 589824"
  then have "do_sparse_mh w ratio ixo = Inl RuntimeError"
    unfolding do_sparse_mh_def by (simp add: reshape_fails bindE_def)
  then show False using assms by simp
qed

section \<open>Pruning a pruned weight\<close>

lemma zero_cols_idem:
  assumes "wf w" "k \<le> rows w"
  shows "zero_cols (zero_cols w (tabs w) k) (tabs (zero_cols w (tabs w) k)) k = zero_cols w (tabs w) k"
proof -
  let ?w' = "zero_cols w (tabs w) k"
  have zero: "data ?w' ! p = 0"
    if p: "p < rows w * cols w" and sel: "p div cols w \<in> smallest (col (tabs ?w') (p mod cols w)) k" for p
  proof -
    let ?j = "p mod cols w" and ?i = "p div cols w"
    have cpos: "0 < cols w" using p by (cases "cols w") auto
    then have j: "?j < cols w" by simp
    have i: "?i < rows w" using p by (simp add: less_mult_imp_div_less)
    let ?ys = "col w ?j"
    let ?ys' = "map (\<lambda>i. if i \<in> smallest (map abs ?ys) k then 0 else ?ys ! i) [0..<length ?ys]"
    have c1: "col (tabs w) ?j = map abs ?ys" by (rule col_tabs[OF assms(1) j])
    have "col ?w' ?j = map (\<lambda>i. if i \<in> smallest (map abs ?ys) k then 0 else data w ! (i * cols w + ?j)) [0..<rows w]"
      using col_zero_cols[OF j, of "tabs w" k] c1 by simp
    also have "\<dots> = ?ys'"
      by (simp add: length_col) (simp add: col_def)
    finally have c2: "col ?w' ?j = ?ys'" .
    have "col (tabs ?w') ?j = map abs (col ?w' ?j)"
      by (rule col_tabs[OF wf_zero_cols]) (simp add: j)
    then have "?i \<in> smallest (map abs ?ys') k" using sel c2 by simp
    then have "?ys' ! ?i = 0"
      by (intro zeroed_smallest_fix[where ys = ?ys and k = k]) (simp_all add: length_col assms(2))
    then have "col ?w' ?j ! ?i = 0" using c2 by simp
    moreover have "col ?w' ?j ! ?i = data ?w' ! (?i * cols w + ?j)"
      using i by (simp add: col_def)
    ultimately show ?thesis by simp
  qed
  have "map (\<lambda>p. if p div cols ?w' \<in> smallest (col (tabs ?w') (p mod cols ?w')) k
                  then 0 else data ?w' ! p) [0..<rows ?w' * cols ?w'] = data ?w'"
    by (rule nth_equalityI) (auto simp: zero)
  then show ?thesis
    by (subst zero_cols_def) simp
qed

lemma do_sparse_idem:
  assumes "wf w" "0 \<le> ratio" "ratio \<le> 1" "do_sparse w ratio = Inr w'"
  shows "do_sparse w' ratio = Inr w'"
proof -
  let ?n = "rows w * cols w"
  let ?k = "nat \<lfloor>ratio * real ?n\<rfloor>"
  let ?ys' = "map (\<lambda>p. if p \<in> smallest (map abs (data w)) ?k then 0 else data w ! p) [0..<length (data w)]"
  have len: "length (data w) = ?n" using assms(1) by (simp add: wf_def)
  have w': "w' = w\<lparr>data := ?ys'\<rparr>"
    using do_sparse_result[OF assms(1,2,3)] assms(4) len by simp
  have wfw: "wf w'" and shape: "rows w' = rows w" "cols w' = cols w"
    using assms(1) by (simp_all add: w' wf_def)
  have kle: "?k \<le> length (data w)" unfolding len by (rule nat_floor_fraction[OF assms(2,3)])
  have fixd: "map (\<lambda>p. if p \<in> smallest (map abs ?ys') ?k then 0 else ?ys' ! p) [0..<?n] = ?ys'"
  proof (rule nth_equalityI)
    show "length (map (\<lambda>p. if p \<in> smallest (map abs ?ys') ?k then 0 else ?ys' ! p) [0..<?n]) = length ?ys'"
      by (simp add: len)
  next
    fix p assume "p < length (map (\<lambda>p. if p \<in> smallest (map abs ?ys') ?k then 0 else ?ys' ! p) [0..<?n])"
    then have p: "p < ?n" by simp
    have "?ys' ! p = 0" if "p \<in> smallest (map abs ?ys') ?k"
      using that by (intro zeroed_smallest_fix[OF kle refl])
    then show "map (\<lambda>p. if p \<in> smallest (map abs ?ys') ?k then 0 else ?ys' ! p) [0..<?n] ! p = ?ys' ! p"
      using p by simp
  qed
  have "do_sparse w' ratio = Inr (w'\<lparr>data := map (\<lambda>p. if p \<in> smallest (map abs (data w')) ?k
                                   then 0 else data w' ! p) [0..<?n]\<rparr>)"
    using do_sparse_result[OF wfw assms(2,3)] shape by simp
  also have "data w' = ?ys'" by (simp add: w')
  finally show ?thesis using fixd by (simp add: w')
qed

lemma sum_list_abs_zero:
  fixes f :: "nat \<Rightarrow> real"
  assumes "sum_list (map (\<lambda>j. \<bar>f j\<bar>) [0..<n]) = 0" "j < n"
  shows "f j = 0"
proof -
  have "\<forall>x\<in>set (map (\<lambda>j. \<bar>f j\<bar>) [0..<n]). x = 0"
    using assms(1) by (subst (asm) sum_list_nonneg_eq_0_iff) auto
  then show ?thesis using assms(2) by auto
qed

lemma do_sparse_chn_idem:
  assumes "wf w" "0 \<le> ratio" "ratio \<le> 1" "do_sparse_chn w ratio = Inr w'"
  shows "do_sparse_chn w' ratio = Inr w'"
proof -
  have cpos: "0 < cols w"
    using assms(4) by (cases "cols w") (simp_all add: do_sparse_chn_def cat_copies_def bindE_def)
  let ?c = "cols w"
  let ?k = "nat \<lfloor>ratio * real (rows w)\<rfloor>"
  let ?S = "smallest (row_magnitudes w) ?k"
  have w': "w' = w\<lparr>data := map (\<lambda>p. if p div ?c \<in> ?S then 0 else data w ! p) [0..<rows w * ?c]\<rparr>"
    using do_sparse_chn_result[OF assms(1) cpos assms(2,3)] assms(4) by simp
  have wfw: "wf w'" and shape: "rows w' = rows w" "cols w' = cols w"
    by (simp_all add: w' wf_def)
  have ent: "data w' ! (i * ?c + j) = (if i \<in> ?S then 0 else data w ! (i * ?c + j))"
    if "i < rows w" "j < ?c" for i j
    using that by (simp add: w' row_major_less)
  have kle: "?k \<le> rows w" by (rule nat_floor_fraction[OF assms(2,3)])
  have mag0: "row_magnitudes w' ! i = 0" if "i \<in> ?S" for i
  proof -
    have i: "i < rows w" using that smallest_subset[of "row_magnitudes w" ?k]
      by (auto simp: length_row_magnitudes)
    have "sum_list (map (\<lambda>j. \<bar>data w' ! (i * ?c + j)\<bar>) [0..<?c]) = 0"
      using that i by (subst sum_list_nonneg_eq_0_iff) (auto simp: ent)
    then show ?thesis using i by (simp add: row_magnitudes_def shape)
  qed
  have sub: "?S \<subseteq> {i. i < length (row_magnitudes w') \<and> row_magnitudes w' ! i = 0}"
    using smallest_subset[of "row_magnitudes w" ?k] mag0
    by (auto simp: length_row_magnitudes shape)
  have "?k = card ?S"
    using card_smallest[of ?k "row_magnitudes w"] kle by (simp add: length_row_magnitudes)
  also have "\<dots> \<le> card {i. i < length (row_magnitudes w') \<and> row_magnitudes w' ! i = 0}"
    by (rule card_mono[OF _ sub]) simp
  finally have kz: "?k \<le> card {i. i < length (row_magnitudes w') \<and> row_magnitudes w' ! i = 0}" .
  have nonneg: "\<forall>i<length (row_magnitudes w'). 0 \<le> row_magnitudes w' ! i"
    by (auto simp: row_magnitudes_def intro!: sum_list_nonneg)
  have zero: "data w' ! p = 0"
    if p: "p < rows w * ?c" and sel: "p div ?c \<in> smallest (row_magnitudes w') ?k" for p
  proof -
    have i: "p div ?c < rows w" using p by (simp add: less_mult_imp_div_less)
    have j: "p mod ?c < ?c" using cpos by simp
    have "row_magnitudes w' ! (p div ?c) = 0" by (rule smallest_zero[OF nonneg kz sel])
    then have "sum_list (map (\<lambda>j. \<bar>data w' ! (p div ?c * ?c + j)\<bar>) [0..<?c]) = 0"
      using i by (simp add: row_magnitudes_def shape)
    then have "data w' ! (p div ?c * ?c + p mod ?c) = 0"
      using j by (rule sum_list_abs_zero)
    then show ?thesis by simp
  qed
  have len': "length (data w') = rows w * ?c" by (simp add: w')
  have fixd: "map (\<lambda>p. if p div ?c \<in> smallest (row_magnitudes w') ?k then 0 else data w' ! p)
                 [0..<rows w * ?c] = data w'"
    by (rule nth_equalityI) (auto simp: zero len')
  have "do_sparse_chn w' ratio =
        Inr (w'\<lparr>data := map (\<lambda>p. if p div ?c \<in> smallest (row_magnitudes w') ?k
                                   then 0 else data w' ! p) [0..<rows w * ?c]\<rparr>)"
    using do_sparse_chn_result[OF wfw _ assms(2,3)] shape cpos by simp
  then show ?thesis by (simp add: fixd)
qed

lemma do_sparse_mh_idem:
  assumes "wf w" "0 \<le> ratio" "ratio \<le> 1" "do_sparse_mh w ratio None = Inr (w', ix)"
  shows "\<exists>ix'. do_sparse_mh w' ratio None = Inr (w', ix')"
proof -
  have n: "rows w * cols w = 589824" by (rule do_sparse_mh_success[OF assms(4)])
  let ?k = "nat \<lfloor>ratio * 12\<rfloor>"
  let ?z = "zero_cols (heads w) (tabs (heads w)) ?k"
  have w': "w' = ?z\<lparr>rows := 768, cols := 768\<rparr>"
    using do_sparse_mh_None[OF assms(1) n assms(2,3)] assms(4) by simp
  have wfw: "wf w'" and n': "rows w' * cols w' = 589824" by (simp_all add: w' wf_def)
  have h: "heads w' = ?z" by (simp add: w' heads_def)
  have kle: "?k \<le> rows (heads w)" using nat_floor_fraction[OF assms(2,3), of 12] by simp
  have wf1: "wf (heads w)" using assms(1) n by (simp add: wf_def)
  have idem: "zero_cols ?z (tabs ?z) ?k = ?z" by (rule zero_cols_idem[OF wf1 kle])
  have "do_sparse_mh w' ratio None =
        Inr ((zero_cols (heads w') (tabs (heads w')) ?k)\<lparr>rows := 768, cols := 768\<rparr>,
             tensor_of ?k 49152 (\<lambda>i j. argsort (col (tabs (heads w')) j) ! i))"
    by (rule do_sparse_mh_None[OF wfw n' assms(2,3)])
  then have "do_sparse_mh w' ratio None =
        Inr (w', tensor_of ?k 49152 (\<lambda>i j. argsort (col (tabs ?z) j) ! i))"
    unfolding h idem w'[symmetric] .
  then show ?thesis by blast
qed

section \<open>The all-ones matrix and the skewed matrix\<close>

lemma count_filter_upt:
  "length (filter P (map f [0..<n])) = card {p. p < n \<and> P (f p)}"
proof -
  have "length (filter P (map f [0..<n])) = length (filter (P \<circ> f) [0..<n])"
    by (simp add: filter_map)
  also have "\<dots> = card (set (filter (P \<circ> f) [0..<n]))"
    by (metis distinct_card distinct_filter distinct_upt)
  also have "set (filter (P \<circ> f) [0..<n]) = {p. p < n \<and> P (f p)}" by auto
  finally show ?thesis .
qed

lemma zero_count_update:
  "zero_count (w\<lparr>data := map f [0..<n]\<rparr>) = card {p. p < n \<and> f p = 0}"
  unfolding zero_count_def using count_filter_upt[of "\<lambda>x. x = 0" f n] by simp

lemma one_count_update:
  "one_count (w\<lparr>data := map f [0..<n]\<rparr>) = card {p. p < n \<and> f p = 1}"
  unfolding one_count_def using count_filter_upt[of "\<lambda>x. x = 1" f n] by simp

lemma do_sparse_ones:
  assumes "0 \<le> ratio" "ratio \<le> 1"
  shows "\<exists>w'. do_sparse (ones_matrix a b) ratio = Inr w' \<and> rows w' = a \<and> cols w' = b
           \<and> zero_count w' = nat \<lfloor>ratio * real (a * b)\<rfloor>
           \<and> one_count w' = a * b - nat \<lfloor>ratio * real (a * b)\<rfloor>"
proof -
  let ?w = "ones_matrix a b"
  let ?n = "a * b"
  let ?k = "nat \<lfloor>ratio * real ?n\<rfloor>"
  let ?S = "smallest (map abs (data ?w)) ?k"
  let ?f = "\<lambda>p. if p \<in> ?S then 0 else data ?w ! p"
  have wfw: "wf ?w" by (simp add: wf_def ones_matrix_def)
  have shape: "rows ?w = a" "cols ?w = b" "length (data ?w) = ?n" by (simp_all add: ones_matrix_def)
  have res: "do_sparse ?w ratio = Inr (?w\<lparr>data := map ?f [0..<?n]\<rparr>)"
    using do_sparse_result[OF wfw assms] shape by simp
  have kle: "?k \<le> ?n" by (rule nat_floor_fraction[OF assms])
  have sub: "?S \<subseteq> {..<?n}" using smallest_subset[of "map abs (data ?w)" ?k] shape by simp
  have card: "card ?S = ?k" using card_smallest[of ?k "map abs (data ?w)"] kle shape by simp
  have one: "data ?w ! p = 1" if "p < ?n" for p using that by (simp add: ones_matrix_def)
  have "{p. p < ?n \<and> ?f p = 0} = ?S" using sub one by auto
  moreover have "zero_count (?w\<lparr>data := map ?f [0..<?n]\<rparr>) = card {p. p < ?n \<and> ?f p = 0}"
    by (rule zero_count_update)
  ultimately have z: "zero_count (?w\<lparr>data := map ?f [0..<?n]\<rparr>) = ?k"
    using card by simp
  have "{p. p < ?n \<and> ?f p = 1} = {..<?n} - ?S" using one by auto
  moreover have "card ({..<?n} - ?S) = ?n - ?k"
    using sub card by (simp add: card_Diff_subset finite_smallest)
  moreover have "one_count (?w\<lparr>data := map ?f [0..<?n]\<rparr>) = card {p. p < ?n \<and> ?f p = 1}"
    by (rule one_count_update)
  ultimately have o: "one_count (?w\<lparr>data := map ?f [0..<?n]\<rparr>) = ?n - ?k"
    by simp
  show ?thesis using res z o shape by simp
qed

lemma upt_12: "[0..<12] = [0, 1, 2, 3, 4, 5, 6, 7, 8, 9, 10, 11::nat]"
  by (simp add: upt_rec)

lemma skewed_value_shape:
  "wf skewed_value" "rows skewed_value * cols skewed_value = 589824"
  by (simp_all add: wf_def skewed_value_def)

lemma skewed_value_nth:
  "p < 589824 \<Longrightarrow> data skewed_value ! p = real ((p div 49152 + p mod 49152) mod 12 + 1)"
  by (simp add: skewed_value_def)

lemma skewed_col0: "col (tabs (heads skewed_value)) 0 = [1, 2, 3, 4, 5, 6, 7, 8, 9, 10, 11, 12]"
  by (simp add: col_tabs wf_heads skewed_value_def)
     (simp add: col_def upt_12 skewed_value_nth)

lemma skewed_col1: "col (tabs (heads skewed_value)) (Suc 0) = [2, 3, 4, 5, 6, 7, 8, 9, 10, 11, 12, 1]"
  by (simp add: col_tabs wf_heads skewed_value_def)
     (simp add: col_def upt_12 skewed_value_nth)

lemma smallest_col0: "smallest [1, 2, 3, 4, 5, 6, 7, 8, 9, 10, 11, 12] (Suc 0) = {0}"
proof -
  have "take 1 (argsort [1, 2, 3, 4, 5, 6, 7, 8, 9, 10, 11, 12]) = [0]" by code_simp
  then show ?thesis by (simp add: smallest_def)
qed

lemma smallest_col1: "smallest [2, 3, 4, 5, 6, 7, 8, 9, 10, 11, 12, 1] (Suc 0) = {11}"
proof -
  have "take 1 (argsort [2, 3, 4, 5, 6, 7, 8, 9, 10, 11, 12, 1]) = [11]" by code_simp
  then show ?thesis by (simp add: smallest_def)
qed

section \<open>The rate balancer: loops as sums\<close>

lemma balance_sums_eq:
  assumes "\<forall>i\<in>set is. i < length pr"
  shows "balance_sums pr is (a, b) =
         Inr (a + sum_list (map (\<lambda>i. pr ! i * real (whole_param ! (i mod 4))) is),
              b + sum_list (map (\<lambda>i. real (whole_param ! (i mod 4))) is))"
  using assms by (induction "is" arbitrary: a b) (simp_all add: add.assoc)

lemma balance_rescale_eq:
  assumes "\<forall>i\<in>set is. i < length pr" "distinct is" "m \<noteq> 0"
  shows "balance_rescale pr is m s =
         Inr (map (\<lambda>j. if j \<in> set is then pr ! j / m * s else pr ! j) [0..<length pr])"
  using assms
proof (induction "is" arbitrary: pr)
  case Nil
  then show ?case by (simp add: map_nth)
next
  case (Cons i "is")
  let ?pr' = "pr[i := pr ! i / m * s]"
  have "balance_rescale ?pr' is m s =
        Inr (map (\<lambda>j. if j \<in> set is then ?pr' ! j / m * s else ?pr' ! j) [0..<length ?pr'])"
    using Cons.prems by (intro Cons.IH) simp_all
  also have "map (\<lambda>j. if j \<in> set is then ?pr' ! j / m * s else ?pr' ! j) [0..<length ?pr']
           = map (\<lambda>j. if j \<in> set (i # is) then pr ! j / m * s else pr ! j) [0..<length pr]"
    using Cons.prems by (auto simp: nth_list_update)
  finally show ?case using Cons.prems by simp
qed

lemma whole_param_pos: "0 < whole_param ! (i mod 4)"
proof -
  have "i mod 4 < 4" by simp
  then have "i mod 4 = 0 \<or> i mod 4 = 1 \<or> i mod 4 = 2 \<or> i mod 4 = 3" by linarith
  then show ?thesis by (auto simp: whole_param_def)
qed

lemma weight_sum_pos: "0 < sum_list (map (\<lambda>i. real (whole_param ! (i mod 4))) [0..<48])"
proof -
  have "[0..<48] = 0 # [1..<48]" by (simp add: upt_rec)
  moreover have "0 \<le> sum_list (map (\<lambda>i. real (whole_param ! (i mod 4))) [1..<48])"
    by (rule sum_list_nonneg) auto
  moreover have "0 < real (whole_param ! (0 mod 4))" using whole_param_pos[of 0] by simp
  ultimately show ?thesis by simp
qed

lemma balance_eq:
  assumes "length pr = 48" "weighted_mean pr \<noteq> 0"
  shows "balance pr s = Inr (map (\<lambda>x. x / weighted_mean pr * s) pr)"
proof -
  have rng: "\<forall>i\<in>set [0..<48]. i < length pr" using assms(1) by simp
  let ?one = "sum_list (map (\<lambda>i. real (whole_param ! (i mod 4))) [0..<48])"
  let ?all = "sum_list (map (\<lambda>i. pr ! i * real (whole_param ! (i mod 4))) [0..<48])"
  have sums: "balance_sums pr [0..<48] (0, 0) = Inr (?all, ?one)"
    using balance_sums_eq[OF rng, of 0 0] by simp
  have one: "?one \<noteq> 0" using weight_sum_pos by simp
  have m: "?all / ?one = weighted_mean pr" by (simp add: weighted_mean_def)
  have "balance_rescale pr [0..<48] (weighted_mean pr) s =
        Inr (map (\<lambda>j. if j \<in> set [0..<48] then pr ! j / weighted_mean pr * s else pr ! j) [0..<length pr])"
    by (rule balance_rescale_eq[OF rng _ assms(2)]) simp
  also have "map (\<lambda>j. if j \<in> set [0..<48] then pr ! j / weighted_mean pr * s else pr ! j) [0..<length pr]
           = map (\<lambda>x. x / weighted_mean pr * s) pr"
    using assms(1) by (intro nth_equalityI) auto
  finally show ?thesis
    unfolding balance_def sums by (simp add: bindE_def one m del: upt_rec_numeral)
qed

lemma weighted_mean_scale:
  assumes "length pr = 48"
  shows "weighted_mean (map (\<lambda>x. x * c) pr) = weighted_mean pr * c"
proof -
  have "map (\<lambda>i. map (\<lambda>x. x * c) pr ! i * real (whole_param ! (i mod 4))) [0..<48]
      = map (\<lambda>i. c * (pr ! i * real (whole_param ! (i mod 4)))) [0..<48]"
    using assms by (intro map_cong[OF refl]) (simp add: mult_ac)
  then show ?thesis
    unfolding weighted_mean_def by (simp only: sum_list_const_mult) (simp add: mult_ac)
qed

lemma weighted_mean_const: "weighted_mean (replicate 48 c) = c"
proof -
  have "map (\<lambda>i. replicate 48 c ! i * real (whole_param ! (i mod 4))) [0..<48]
      = map (\<lambda>i. c * real (whole_param ! (i mod 4))) [0..<48]"
    by (intro map_cong[OF refl]) simp
  then show ?thesis
    unfolding weighted_mean_def using weight_sum_pos
    by (simp only: sum_list_const_mult) simp
qed

section \<open>Scores of an evaluation epoch\<close>

lemma i64_id: "- (2 ^ 63) \<le> x \<Longrightarrow> x < 2 ^ 63 \<Longrightarrow> i64 x = x"
  by (simp add: i64_def)

lemma i64_0 [simp]: "i64 0 = 0"
  by (simp add: i64_def)

lemma binary_sums:
  assumes "set ls \<subseteq> {0, 1::int}"
  shows "sum_list (map (\<lambda>l. l * l) ls) = int (length (filter (\<lambda>l. l = 1) ls))"
    and "sum_list (map (\<lambda>l. (1 - l) * (1 - l)) ls) = int (length (filter (\<lambda>l. l = 0) ls))"
    and "sum_list (map (\<lambda>l. l * (1 - l)) ls) = 0"
    and "sum_list (map (\<lambda>l. (1 - l) * l) ls) = 0"
  using assms by (induction ls) auto

lemma i64_mod: "i64 a mod 2 ^ 64 = a mod 2 ^ 64"
proof -
  have "i64 a mod 2 ^ 64 = ((a + 2 ^ 63) mod 2 ^ 64 - 2 ^ 63 mod 2 ^ 64) mod 2 ^ 64"
    unfolding i64_def by (simp only: mod_diff_right_eq)
  also have "\<dots> = (a + 2 ^ 63 - 2 ^ 63) mod 2 ^ 64"
    by (simp only: mod_diff_eq)
  finally show ?thesis by simp
qed

lemma i64_cong: "a mod 2 ^ 64 = b mod 2 ^ 64 \<Longrightarrow> i64 a = i64 b"
proof -
  assume "a mod 2 ^ 64 = b mod 2 ^ 64"
  then have "(a + 2 ^ 63) mod 2 ^ 64 = (b + 2 ^ 63) mod (2 ^ 64 :: int)"
    by (metis mod_add_left_eq)
  then show ?thesis by (simp only: i64_def)
qed

lemma i64_mult_i64: "i64 (i64 a * i64 b) = i64 (a * b)"
  by (rule i64_cong) (rule mod_mult_cong; rule i64_mod)

lemma i64_mult4_i64: "i64 (i64 a * i64 a * i64 b * i64 b) = i64 (a * a * b * b)"
  by (rule i64_cong) (intro mod_mult_cong i64_mod)

text \<open>What \<^verbatim>\<open>accuracy\<close> returns on a batch whose predictions all equal their labels.\<close>

lemma accuracy_all_correct:
  assumes "all_correct b"
  shows "accuracy (fst b) (snd b) =
         Inr (int (length (snd b)), counts_mc b)"
proof -
  obtain logits label_ids where b: "b = (logits, label_ids)" by (cases b)
  from assms obtain preds where p: "mapE argmax logits = Inr preds" "map int preds = label_ids"
    and sub: "set label_ids \<subseteq> {0, 1}"
    by (cases "mapE argmax logits") (auto simp: all_correct_def b)
  have len: "length preds = length label_ids" using p(2) by (metis length_map)
  let ?n1 = "int (length (filter (\<lambda>l. l = 1) label_ids))"
  let ?n0 = "int (length (filter (\<lambda>l. l = 0) label_ids))"
  have z: "zip label_ids label_ids = map (\<lambda>l. (l, l)) label_ids" by (rule zip_same_conv_map)
  have cnt: "length (filter (\<lambda>(p, l). p = l) (zip label_ids label_ids)) = length label_ids"
    by (simp add: z filter_map comp_def)
  have m2: "map2 f label_ids label_ids = map (\<lambda>l. f l l) label_ids" for f :: "int \<Rightarrow> int \<Rightarrow> int"
    by (simp add: z)
  show ?thesis
    unfolding b fst_conv snd_conv accuracy_def p(1) bindE_def Let_def counts_mc_def class1_def class0_def
    using len by (simp add: p(2) m2 binary_sums[OF sub] cnt i64_mult_i64 i64_mult4_i64)
qed

lemma fadd_NaN_right [simp]: "fadd x NaN = NaN"
  by (cases x) simp_all

lemma foldl_fadd_NaN_start: "foldl fadd NaN xs = NaN"
  by (induction xs) simp_all

lemma foldl_fadd_NaN: "NaN \<in> set xs \<Longrightarrow> foldl fadd m xs = NaN"
  by (induction xs arbitrary: m) (auto simp: foldl_fadd_NaN_start)

lemma foldl_fadd_ones: "\<forall>x\<in>set xs. x = Fin 1 \<Longrightarrow> foldl fadd (Fin m) xs = Fin (m + real (length xs))"
  by (induction xs arbitrary: m) (simp_all add: algebra_simps)

lemma eval_loop_all_correct:
  assumes "\<forall>b\<in>set batches. all_correct b"
  shows "eval_loop batches (a, m, st, ex) =
         Inr (a + int (sum_list (map (\<lambda>b. length (snd b)) batches)),
              foldl fadd m (map counts_mc batches),
              st + length batches, ex + sum_list (map (\<lambda>b. length (snd b)) batches))"
  using assms
proof (induction batches arbitrary: a m st ex)
  case Nil
  then show ?case by simp
next
  case (Cons b batches)
  obtain logits label_ids where b: "b = (logits, label_ids)" by (cases b)
  have "all_correct b" using Cons.prems by simp
  then have acc: "accuracy logits label_ids = Inr (int (length label_ids), counts_mc b)"
    using accuracy_all_correct[of b] by (simp add: b)
  show ?case
    using Cons.prems by (simp add: b[symmetric] acc bindE_def Cons.IH algebra_simps)
      (simp add: b acc bindE_def Cons.IH algebra_simps)
qed

lemma eval_metrics_all_correct:
  assumes "\<forall>b\<in>set batches. all_correct b" "batches \<noteq> []"
  shows "eval_metrics batches =
         Inr (fdiv (Fin (real (sum_list (map (\<lambda>b. length (snd b)) batches))))
                   (sum_list (map (\<lambda>b. length (snd b)) batches)),
              fdiv (foldl fadd (Fin 0) (map counts_mc batches)) (length batches))"
  unfolding eval_metrics_def using eval_loop_all_correct[OF assms(1), of 0 "Fin 0" 0 0] assms(2)
  by (simp add: bindE_def)

lemma counts_mc_one:
  assumes "0 < class1 b * class0 b" "(class1 b * class0 b)\<^sup>2 < 2 ^ 63"
  shows "counts_mc b = Fin 1"
proof -
  let ?p = "class1 b * class0 b"
  have sq: "class1 b * class1 b * class0 b * class0 b = ?p\<^sup>2"
    by (simp add: power2_eq_square)
  have "1 \<le> ?p" using assms(1) by linarith
  then have "?p * 1 \<le> ?p * ?p" using assms(1) by (intro mult_left_mono) simp_all
  then have le: "?p \<le> ?p\<^sup>2" by (simp only: power2_eq_square mult_1_right)
  have p63: "?p < 2 ^ 63" using le assms(2) by linarith
  have n: "i64 ?p = ?p" using assms(1) p63 by (intro i64_id) linarith+
  have d: "i64 (?p\<^sup>2) = ?p\<^sup>2" using assms le by (intro i64_id) linarith+
  have pos2: "0 < ?p\<^sup>2" using assms(1) le by linarith
  have rp: "0 \<le> real_of_int ?p" using assms(1) by (simp only: of_int_0_le_iff)
  have s: "sqrt (real_of_int (?p\<^sup>2)) = real_of_int ?p"
    using rp by (simp only: of_int_power real_sqrt_abs abs_of_nonneg)
  have ne: "real_of_int ?p \<noteq> 0" using assms(1) by (simp only: of_int_eq_0_iff)
  show ?thesis
    unfolding counts_mc_def sq n d matthews_def using pos2 s ne by simp
qed

lemma counts_mc_single_class:
  assumes "class1 b * class0 b = 0"
  shows "counts_mc b = NaN"
proof -
  have "class1 b * class1 b * class0 b * class0 b = (class1 b * class0 b) * (class1 b * class0 b)"
    by (simp add: mult_ac)
  then have z: "class1 b * class1 b * class0 b * class0 b = 0" using assms by simp
  show ?thesis unfolding counts_mc_def z assms by (simp add: matthews_def)
qed

lemma all_correct_accuracy_one:
  assumes "\<forall>b\<in>set batches. all_correct b" "\<exists>b\<in>set batches. snd b \<noteq> []"
  shows "\<exists>mc. eval_metrics batches = Inr (Fin 1, mc)"
proof -
  let ?n = "sum_list (map (\<lambda>b. length (snd b)) batches)"
  from assms(2) obtain b where b: "b \<in> set batches" "snd b \<noteq> []" by blast
  then have ne: "batches \<noteq> []" by auto
  have "length (snd b) \<le> ?n" using b(1) by (simp add: member_le_sum_list)
  moreover have "0 < length (snd b)" using b(2) by simp
  ultimately have npos: "0 < ?n" by linarith
  obtain n where n: "n = ?n" by simp
  have "0 < n" unfolding n by (rule npos)
  then have "fdiv (Fin (real n)) n = Fin 1" by simp
  then show ?thesis
    using eval_metrics_all_correct[OF assms(1) ne] unfolding n[symmetric] by simp
qed

lemma class_counts_nonneg: "0 \<le> class1 b" "0 \<le> class0 b"
  by (simp_all add: class1_def class0_def)

lemma all_correct_both_classes_one:
  assumes "\<forall>b\<in>set batches. all_correct b" "batches \<noteq> []"
    and "\<forall>b\<in>set batches. 0 < class1 b * class0 b \<and> (class1 b * class0 b)\<^sup>2 < 2 ^ 63"
  shows "eval_metrics batches = Inr (Fin 1, Fin 1)"
proof -
  have ones: "\<forall>x\<in>set (map counts_mc batches). x = Fin 1"
    using assms(3) by (auto intro: counts_mc_one)
  have mc: "fdiv (foldl fadd (Fin 0) (map counts_mc batches)) (length batches) = Fin 1"
    using foldl_fadd_ones[OF ones, of 0] assms(2) by simp
  obtain b where b: "b \<in> set batches" using assms(2) by (cases batches) auto
  have "0 < class1 b * class0 b" using assms(3) b by blast
  then have "class1 b \<noteq> 0" by auto
  then have "snd b \<noteq> []" by (auto simp: class1_def)
  then have "\<exists>b\<in>set batches. snd b \<noteq> []" using b by blast
  from all_correct_accuracy_one[OF assms(1) this] obtain m where
    "eval_metrics batches = Inr (Fin 1, m)" by blast
  then show ?thesis
    using eval_metrics_all_correct[OF assms(1,2)] mc by simp
qed

lemma all_correct_single_class_nan:
  assumes "\<forall>b\<in>set batches. all_correct b" "batches \<noteq> []"
    and "\<exists>b\<in>set batches. class1 b * class0 b = 0"
  shows "\<exists>acc. eval_metrics batches = Inr (acc, NaN)"
proof -
  from assms(3) obtain b where b: "b \<in> set batches" "counts_mc b = NaN"
    using counts_mc_single_class by blast
  then have "NaN \<in> set (map counts_mc batches)" by force
  then have "foldl fadd (Fin 0) (map counts_mc batches) = NaN" by (rule foldl_fadd_NaN)
  then show ?thesis using eval_metrics_all_correct[OF assms(1,2)] by simp
qed

lemma mapE_append:
  "mapE f xs = Inr ys \<Longrightarrow> mapE f xs' = Inr ys' \<Longrightarrow> mapE f (xs @ xs') = Inr (ys @ ys')"
  by (induction xs arbitrary: ys) (auto simp: bindE_def split: sum.splits)

lemma mapE_replicate: "f x = Inr y \<Longrightarrow> mapE f (replicate n x) = Inr (replicate n y)"
  by (induction n) (simp_all add: bindE_def)

lemma all_correct_mixed_batch: "all_correct mixed_batch"
  by (simp add: all_correct_def mixed_batch_def argmax_def bindE_def)

lemma all_correct_single_class_batch: "all_correct single_class_batch"
  by (simp add: all_correct_def single_class_batch_def argmax_def bindE_def)

lemma all_correct_large_batch: "all_correct large_batch"
proof -
  have a: "argmax [1, 0] = Inr 0" "argmax [0, 1] = Inr 1" by (simp_all add: argmax_def)
  have "mapE argmax (replicate 55109 [1, 0] @ replicate 55109 [0, 1])
        = Inr (replicate 55109 0 @ replicate 55109 1)"
    by (intro mapE_append mapE_replicate a)
  then show ?thesis by (simp add: all_correct_def large_batch_def)
qed

lemma counts_small_batches:
  "class1 mixed_batch = 1" "class0 mixed_batch = 1"
  "class1 single_class_batch = 2" "class0 single_class_batch = 0"
  by (simp_all add: class1_def class0_def mixed_batch_def single_class_batch_def)

lemma counts_large_batch: "class1 large_batch = 55109" "class0 large_batch = 55109"
  by (simp_all add: class1_def class0_def large_batch_def)

lemma counts_mc_large_batch: "counts_mc large_batch = NaN"
  unfolding counts_mc_def counts_large_batch by (simp add: i64_def matthews_def)

lemma eval_mixed_then_single: "eval_metrics [mixed_batch, single_class_batch] = Inr (Fin 1, NaN)"
proof -
  have ac: "\<forall>b\<in>set [mixed_batch, single_class_batch]. all_correct b"
    by (simp add: all_correct_mixed_batch all_correct_single_class_batch)
  have "\<exists>mc. eval_metrics [mixed_batch, single_class_batch] = Inr (Fin 1, mc)"
    by (rule all_correct_accuracy_one[OF ac]) (simp add: mixed_batch_def)
  moreover have "\<exists>acc. eval_metrics [mixed_batch, single_class_batch] = Inr (acc, NaN)"
    by (rule all_correct_single_class_nan[OF ac]) (simp_all add: counts_small_batches)
  ultimately show ?thesis by auto
qed

lemma eval_large_batch: "eval_metrics [large_batch] = Inr (Fin 1, NaN)"
proof -
  have ac: "\<forall>b\<in>set [large_batch]. all_correct b" by (simp add: all_correct_large_batch)
  have "\<exists>mc. eval_metrics [large_batch] = Inr (Fin 1, mc)"
    by (rule all_correct_accuracy_one[OF ac]) (simp add: large_batch_def)
  moreover have "eval_metrics [large_batch]
      = Inr (fdiv (Fin (real (sum_list (map (\<lambda>b. length (snd b)) [large_batch]))))
                   (sum_list (map (\<lambda>b. length (snd b)) [large_batch])),
              fdiv (foldl fadd (Fin 0) (map counts_mc [large_batch])) (length [large_batch]))"
    by (rule eval_metrics_all_correct[OF ac]) simp
  ultimately show ?thesis by (auto simp: counts_mc_large_batch)
qed

section \<open>The pruning pass and the run\<close>

lemma do_sparse_w23: "do_sparse w23 (1/2) = Inr w23_entries_pruned"
  unfolding w23_def w23_entries_pruned_def by code_simp

lemma do_sparse_chn_w23: "do_sparse_chn w23 (1/2) = Inr w23_rows_pruned"
  unfolding w23_def w23_rows_pruned_def by code_simp

lemma in_place_w23:
  "in_place w23 w23_entries_pruned = w23_entries_pruned"
  "in_place w23 w23_rows_pruned = w23_rows_pruned"
  by (simp_all add: in_place_def w23_def w23_entries_pruned_def w23_rows_pruned_def)


lemma vanilla_plan_nth: "j < 48 \<Longrightarrow> get vanilla_plan j = Inr ''vanilla''"
  by (simp add: get_def vanilla_plan_def)

lemma half_rates_nth: "j < 48 \<Longrightarrow> get half_rates j = Inr (1/2)"
  by (simp add: get_def half_rates_def)

lemma sparse_layer_toy:
  assumes "i < 12"
  shows "sparse_layer vanilla_plan half_rates i toy_layer = Inr toy_layer_pruned"
proof -
  have j: "i * 4 + 0 < 48" "i * 4 + 1 < 48" "i * 4 + 2 < 48" "i * 4 + 3 < 48"
    using assms by simp_all
  show ?thesis
    unfolding sparse_layer_def sparse_slot0_def sparse_slot1_def sparse_slot2_def sparse_slot3_def
      vanilla_plan_nth[OF j(1)] vanilla_plan_nth[OF j(2)] vanilla_plan_nth[OF j(3)]
      vanilla_plan_nth[OF j(4)] half_rates_nth[OF j(1)] half_rates_nth[OF j(2)]
      half_rates_nth[OF j(3)] half_rates_nth[OF j(4)]
    by (simp add: bindE_def toy_layer_def toy_layer_pruned_def do_sparse_w23 in_place_w23)
qed

lemma sparse_layers_map:
  assumes "\<forall>i<length ls. sparse_layer pt pr i (ls ! i) = Inr (f (ls ! i))" "k \<le> length ls"
  shows "sparse_layers pt pr [k..<length ls] (map f (take k ls) @ drop k ls) = Inr (map f ls)"
  using assms(2)
proof (induction "length ls - k" arbitrary: k)
  case 0
  then show ?case by simp
next
  case (Suc d)
  then have k: "k < length ls" by simp
  let ?cur = "map f (take k ls) @ drop k ls"
  have up: "[k..<length ls] = k # [Suc k..<length ls]" using k by (simp add: upt_rec)
  have cur_k: "?cur ! k = ls ! k" using k by (simp add: nth_append)
  have len: "length ?cur = length ls" by simp
  have g: "get ?cur k = Inr (ls ! k)" using k cur_k by (simp add: get_def)
  have step: "?cur[k := f (ls ! k)] = map f (take (Suc k) ls) @ drop (Suc k) ls"
    using k by (simp add: list_update_append take_Suc_conv_app_nth upd_conv_take_nth_drop
        drop_Suc Cons_nth_drop_Suc[symmetric] )
  have "sparse_layers pt pr [Suc k..<length ls] (map f (take (Suc k) ls) @ drop (Suc k) ls) = Inr (map f ls)"
    using Suc k by (intro Suc.hyps(1)) simp_all
  then show ?case
    unfolding up using assms(1) k by (simp add: g bindE_def step)
qed

lemma sparse_pass_toy: "sparse_pass vanilla_plan half_rates (Suc 0) [toy_bert, toy_bert] = Inr [toy_bert, toy_bert_pruned]"
proof -
  have "sparse_layers vanilla_plan half_rates [0..<length (replicate 12 toy_layer)]
          (map (\<lambda>_. toy_layer_pruned) (take 0 (replicate 12 toy_layer)) @ drop 0 (replicate 12 toy_layer))
        = Inr (map (\<lambda>_. toy_layer_pruned) (replicate 12 toy_layer))"
    by (rule sparse_layers_map) (simp_all add: sparse_layer_toy)
  then have "sparse_layers vanilla_plan half_rates [0..<12] (replicate 12 toy_layer)
             = Inr (replicate 12 toy_layer_pruned)"
    by (simp del: upt_rec_numeral)
  then show ?thesis
    unfolding sparse_pass_def layer_num_def
    by (simp add: get_def bindE_def toy_bert_def toy_bert_pruned_def del: upt_rec_numeral)
qed

lemma toy_eval: "eval_metrics [([[0, 1], [1, 0]], [0, 1])] = Inr (Fin 0, Fin (-1))"
  by (simp add: eval_metrics_def accuracy_def argmax_def bindE_def matthews_def i64_id)

lemma toy_env_fields:
  "task_name toy_env = ''cola''" "num_train_epochs toy_env = 1"
  "gradient_accumulation_steps toy_env = 1" "train_dataloader toy_env i = [()]"
  "eval_dataloader toy_env = [((), [0, 1])]" "new_optimizer toy_env m = ()"
  "forward_backward toy_env pt pr opt m b = opt" "optimizer_step toy_env opt m = (opt, m)"
  "predict toy_env pt pr m x = [[0, 1], [1, 0]]"
  by (simp_all add: toy_env_def)

lemma toy_train_step:
  "train_step toy_env vanilla_plan half_rates (Suc 0) 0 () ((), [toy_bert, toy_bert])
     = Inr ((), [toy_bert, toy_bert_pruned])"
  by (simp add: train_step_def get_def bindE_def toy_env_fields sparse_pass_toy)

lemma toy_run_epoch:
  "run_epoch toy_env vanilla_plan half_rates (Suc 0) 0
     ((), \<lparr>heap = [toy_bert, toy_bert], reported = []\<rparr>, Fin 0)
   = Inr ((), \<lparr>heap = [toy_bert, toy_bert_pruned], reported = [Fin (-1)]\<rparr>, Fin 0)"
  by (simp add: run_epoch_def toy_env_fields toy_train_step bindE_def get_def toy_eval
      epoch_score_def update_best_def)

lemma toy_run:
  "eval_after_train toy_env 0 vanilla_plan half_rates toy_state
   = Inr (Fin 0, \<lparr>heap = [toy_bert, toy_bert_pruned], reported = [Fin (-1)]\<rparr>)"
  by (simp add: eval_after_train_def deepcopy_def get_def bindE_def toy_state_def toy_env_fields
      toy_run_epoch)

lemma bindE_Inr:
  "bindE m f = Inr y \<Longrightarrow> \<exists>x. m = Inr x \<and> f x = Inr y"
  by (cases m) (simp_all add: bindE_def)

lemma get_Inr: "get xs i = Inr x \<Longrightarrow> i < length xs \<and> x = xs ! i"
  by (auto simp: get_def split: if_splits)

lemma sparse_pass_frame:
  assumes "sparse_pass pt pr model h = Inr h'"
  shows "length h' = length h \<and> (\<forall>r. r \<noteq> model \<longrightarrow> h' ! r = h ! r)"
proof -
  from assms obtain m ls where "h' = h[model := m\<lparr>layers := ls\<rparr>]"
    unfolding sparse_pass_def by (auto dest!: bindE_Inr)
  then show ?thesis by simp
qed

lemma train_step_frame:
  assumes "train_step e pt pr model step b (opt, h) = Inr (opt', h')"
  shows "length h' = length h \<and> (\<forall>r. r \<noteq> model \<longrightarrow> h' ! r = h ! r)"
proof -
  let ?gas = "gradient_accumulation_steps e"
  from assms obtain m where m: "get h model = Inr m"
    and body: "(let opt1 = forward_backward e pt pr opt m b
       in if ?gas = 0 then Inl ZeroDivisionError
          else
            let (opt2, h2) =
                  (if (step + 1) mod ?gas = 0
                   then (let (opt', m') = optimizer_step e opt1 m in (opt', h[model := m']))
                   else (opt1, h))
            in bindE (sparse_pass pt pr model h2) (\<lambda>h3. Inr (opt2, h3))) = Inr (opt', h')"
    unfolding train_step_def by (auto dest!: bindE_Inr)
  let ?opt1 = "forward_backward e pt pr opt m b"
  obtain opt2 h2 where p: "(if (step + 1) mod ?gas = 0
                   then (let (opt', m') = optimizer_step e ?opt1 m in (opt', h[model := m']))
                   else (?opt1, h)) = (opt2, h2)"
    by (metis surj_pair)
  have h2: "length h2 = length h \<and> (\<forall>r. r \<noteq> model \<longrightarrow> h2 ! r = h ! r)"
  proof (cases "(step + 1) mod ?gas = 0")
    case True
    obtain o' m' where om: "optimizer_step e ?opt1 m = (o', m')" by (metis surj_pair)
    have "h2 = h[model := m']" using p True by (simp add: om)
    then show ?thesis by simp
  next
    case False
    then have "h2 = h" using p by simp
    then show ?thesis by simp
  qed
  have gas: "?gas \<noteq> 0" using body by (auto simp: Let_def split: if_splits)
  have "bindE (sparse_pass pt pr model h2) (\<lambda>h3. Inr (opt2, h3)) = Inr (opt', h')"
    using body gas p by (simp add: Let_def split: prod.splits if_splits)
  then have "sparse_pass pt pr model h2 = Inr h'" by (auto dest!: bindE_Inr)
  then show ?thesis using sparse_pass_frame h2 by metis
qed

lemma train_loop_frame:
  assumes "train_loop e pt pr model step bs (opt, h) = Inr (opt', h')"
  shows "length h' = length h \<and> (\<forall>r. r \<noteq> model \<longrightarrow> h' ! r = h ! r)"
  using assms
proof (induction bs arbitrary: step opt h)
  case Nil
  then show ?case by simp
next
  case (Cons b bs)
  from Cons.prems obtain opt1 h1 where
    st: "train_step e pt pr model step b (opt, h) = Inr (opt1, h1)"
    and rest: "train_loop e pt pr model (step + 1) bs (opt1, h1) = Inr (opt', h')"
    by (auto dest!: bindE_Inr)
  show ?case using train_step_frame[OF st] Cons.IH[OF rest] by simp
qed

lemma epoch_score_cola: "epoch_score ''cola'' acc mc = (if mc = NaN then Fin 0 else mc)"
  by (simp add: epoch_score_def)

lemma epoch_score_other: "t \<noteq> ''cola'' \<Longrightarrow> epoch_score t acc mc = acc"
  by (simp add: epoch_score_def)

lemma epoch_score_cola_not_nan: "epoch_score ''cola'' acc mc \<noteq> NaN"
  by (simp add: epoch_score_cola)

lemma run_epoch_effect:
  assumes "run_epoch e pt pr model epoch_i (opt, s, best) = Inr (opt', s', best')"
  shows "length (heap s') = length (heap s) \<and> (\<forall>r. r \<noteq> model \<longrightarrow> heap s' ! r = heap s ! r)
       \<and> (\<exists>score. reported s' = reported s @ [score] \<and> best' = update_best best score
                  \<and> (task_name e = ''cola'' \<longrightarrow> score \<noteq> NaN))"
proof -
  from assms obtain opt1 h acc mc where
    tl: "train_loop e pt pr model 0 (train_dataloader e epoch_i) (opt, heap s) = Inr (opt1, h)"
    and s': "s' = s\<lparr>heap := h, reported := reported s @ [epoch_score (task_name e) acc mc]\<rparr>"
    and b': "best' = update_best best (epoch_score (task_name e) acc mc)"
    unfolding run_epoch_def
    by (auto simp: Let_def dest!: bindE_Inr split: if_splits prod.splits)
  have "task_name e = ''cola'' \<longrightarrow> epoch_score (task_name e) acc mc \<noteq> NaN"
    using epoch_score_cola_not_nan by simp
  then show ?thesis using train_loop_frame[OF tl] s' b' by simp
qed

lemma run_epochs_effect:
  assumes "run_epochs e pt pr model epochs (opt, s, best) = Inr (opt', s', best')"
  shows "length (heap s') = length (heap s) \<and> (\<forall>r. r \<noteq> model \<longrightarrow> heap s' ! r = heap s ! r)
       \<and> (\<exists>scores. reported s' = reported s @ scores \<and> length scores = length epochs
                   \<and> best' = foldl update_best best scores
                   \<and> (task_name e = ''cola'' \<longrightarrow> NaN \<notin> set scores))"
  using assms
proof (induction epochs arbitrary: opt s best)
  case Nil
  then show ?case by simp
next
  case (Cons epoch_i epochs)
  from Cons.prems obtain opt1 s1 best1 where
    ep: "run_epoch e pt pr model epoch_i (opt, s, best) = Inr (opt1, s1, best1)"
    and rest: "run_epochs e pt pr model epochs (opt1, s1, best1) = Inr (opt', s', best')"
    by (auto dest!: bindE_Inr)
  from run_epoch_effect[OF ep] obtain score where
    f1: "length (heap s1) = length (heap s)" "\<forall>r. r \<noteq> model \<longrightarrow> heap s1 ! r = heap s ! r"
    and r1: "reported s1 = reported s @ [score]" "best1 = update_best best score"
      "task_name e = ''cola'' \<longrightarrow> score \<noteq> NaN"
    by blast
  from Cons.IH[OF rest] obtain scores where
    f2: "length (heap s') = length (heap s1)" "\<forall>r. r \<noteq> model \<longrightarrow> heap s' ! r = heap s1 ! r"
    and r2: "reported s' = reported s1 @ scores" "length scores = length epochs"
      "best' = foldl update_best best1 scores" "task_name e = ''cola'' \<longrightarrow> NaN \<notin> set scores"
    by blast
  have "reported s' = reported s @ (score # scores)" using r1 r2 by simp
  moreover have "length (score # scores) = length (epoch_i # epochs)" using r2 by simp
  moreover have "best' = foldl update_best best (score # scores)" using r1 r2 by simp
  moreover have "task_name e = ''cola'' \<longrightarrow> NaN \<notin> set (score # scores)" using r1 r2 by auto
  ultimately show ?case using f1 f2 by (metis (no_types, lifting))
qed

lemma eval_after_train_effect:
  assumes "eval_after_train e self_model pt pr s = Inr (best, s')"
  shows "self_model < length (heap s) \<and> length (heap s') = Suc (length (heap s))
       \<and> (\<forall>r<length (heap s). heap s' ! r = heap s ! r)
       \<and> (\<exists>scores. reported s' = reported s @ scores \<and> length scores = num_train_epochs e
                   \<and> best = foldl update_best (Fin 0) scores
                   \<and> (task_name e = ''cola'' \<longrightarrow> NaN \<notin> set scores))"
proof -
  let ?model = "length (heap s)"
  let ?h = "heap s @ [heap s ! self_model]"
  from assms obtain opt where
    sm: "self_model < length (heap s)"
    and run: "run_epochs e pt pr ?model [0..<num_train_epochs e]
               (new_optimizer e (?h ! ?model), s\<lparr>heap := ?h\<rparr>, Fin 0) = Inr (opt, s', best)"
    unfolding eval_after_train_def deepcopy_def
    by (auto dest!: bindE_Inr get_Inr split: prod.splits)
  from run_epochs_effect[OF run] obtain scores where
    f: "length (heap s') = length ?h" "\<forall>r. r \<noteq> ?model \<longrightarrow> heap s' ! r = ?h ! r"
    and r: "reported s' = reported s @ scores" "length scores = num_train_epochs e"
      "best = foldl update_best (Fin 0) scores" "task_name e = ''cola'' \<longrightarrow> NaN \<notin> set scores"
    by auto
  have "\<forall>r<length (heap s). heap s' ! r = heap s ! r" using f(2) by (simp add: nth_append)
  then show ?thesis using sm f(1) r by auto
qed

lemma fgt_irrefl: "\<not> fgt a a"
  by (cases a) simp_all

lemma fgt_trans: "fgt a b \<Longrightarrow> fgt b c \<Longrightarrow> fgt a c"
  by (cases a; cases b; cases c) simp_all

lemma fgt_asym: "fgt a b \<Longrightarrow> \<not> fgt b a"
  using fgt_trans fgt_irrefl by blast

lemma update_best_cases:
  "(update_best b x = b \<and> \<not> fgt x b) \<or> (update_best b x = x \<and> fgt x b)"
  by (simp add: update_best_def)

lemma foldl_update_best:
  "(foldl update_best b xs = b \<or> foldl update_best b xs \<in> set xs)
   \<and> (foldl update_best b xs = b \<or> fgt (foldl update_best b xs) b)
   \<and> (\<forall>x\<in>set xs. \<not> fgt x (foldl update_best b xs))"
proof (induction xs arbitrary: b)
  case Nil
  then show ?case by simp
next
  case (Cons x xs)
  let ?b' = "update_best b x"
  let ?r = "foldl update_best ?b' xs"
  note ih = Cons.IH[of ?b']
  have r: "foldl update_best b (x # xs) = ?r" by simp
  have c: "(?b' = b \<and> \<not> fgt x b) \<or> (?b' = x \<and> fgt x b)" by (rule update_best_cases)
  have 1: "?r = b \<or> ?r \<in> set (x # xs)" using ih c by auto
  have 2: "?r = b \<or> fgt ?r b" using ih c fgt_trans by metis
  have x: "\<not> fgt x ?r"
  proof
    assume a: "fgt x ?r"
    from c show False
    proof
      assume "?b' = b \<and> \<not> fgt x b"
      then show False using a ih fgt_trans by metis
    next
      assume "?b' = x \<and> fgt x b"
      then show False using a ih fgt_irrefl fgt_asym by metis
    qed
  qed
  have 3: "\<forall>y\<in>set (x # xs). \<not> fgt y ?r" using ih x by simp
  show ?case unfolding r using 1 2 3 by blast
qed

lemma eval_metrics_total:
  assumes "batches \<noteq> []" "\<forall>b\<in>set batches. \<exists>res. accuracy (fst b) (snd b) = Inr res"
  shows "\<exists>acc mc. eval_metrics batches = Inr (acc, mc)"
proof -
  have loop: "\<exists>a' m' ex'. eval_loop bs (a, m, st, ex) = Inr (a', m', st + length bs, ex')"
    if "\<forall>b\<in>set bs. \<exists>res. accuracy (fst b) (snd b) = Inr res" for bs a m st ex
    using that
  proof (induction bs arbitrary: a m st ex)
    case Nil
    then show ?case by simp
  next
    case (Cons b bs)
    obtain logits label_ids where b: "b = (logits, label_ids)" by (cases b)
    from Cons.prems obtain t mc where acc: "accuracy logits label_ids = Inr (t, mc)"
      by (auto simp: b)
    have "\<exists>a' m' ex'. eval_loop bs (a + t, fadd m mc, st + 1, ex + length label_ids)
            = Inr (a', m', (st + 1) + length bs, ex')"
      using Cons.prems by (intro Cons.IH) simp
    then show ?case by (simp add: b acc bindE_def)
  qed
  from loop[OF assms(2), of 0 "Fin 0" 0 0] obtain a' m' ex'
    where "eval_loop batches (0, Fin 0, 0, 0) = Inr (a', m', length batches, ex')" by auto
  then show ?thesis using assms(1) by (simp add: eval_metrics_def bindE_def)
qed


lemma py_lower_cola: "py_lower ''cola'' = ''cola''"
  by code_simp

lemma py_lower_upper: "py_lower ''CoLA'' = ''cola''"
  by code_simp

lemma py_lower_sst: "py_lower ''sst-2'' \<noteq> ''cola''"
  by code_simp

lemma run_epoch_trace:
  assumes "run_epoch e pt pr model epoch_i (opt, s, best) = Inr (opt', s', best')"
  shows "train_loop e pt pr model 0 (train_dataloader e epoch_i) (opt, heap s) = Inr (opt', heap s')
       \<and> (\<exists>acc mc. eval_metrics (map (\<lambda>(input_ids, label_ids).
                                        (predict e pt pr (heap s' ! model) input_ids, label_ids))
                                     (eval_dataloader e)) = Inr (acc, mc)
              \<and> reported s' = reported s @ [epoch_score (task_name e) acc mc]
              \<and> best' = update_best best (epoch_score (task_name e) acc mc))"
proof -
  from assms have "\<exists>h m acc mc.
      train_loop e pt pr model 0 (train_dataloader e epoch_i) (opt, heap s) = Inr (opt', h)
    \<and> get h model = Inr m
    \<and> eval_metrics (map (\<lambda>(input_ids, label_ids).
                                   (predict e pt pr m input_ids, label_ids))
                                (eval_dataloader e)) = Inr (acc, mc)
    \<and> s' = s\<lparr>heap := h, reported := reported s @ [epoch_score (task_name e) acc mc]\<rparr>
    \<and> best' = update_best best (epoch_score (task_name e) acc mc)"
    unfolding run_epoch_def
    by (auto simp: Let_def dest!: bindE_Inr split: if_splits prod.splits)
  then obtain h m acc mc where
    tl: "train_loop e pt pr model 0 (train_dataloader e epoch_i) (opt, heap s) = Inr (opt', h)"
    and m: "get h model = Inr m"
    and ev: "eval_metrics (map (\<lambda>(input_ids, label_ids).
                                   (predict e pt pr m input_ids, label_ids))
                                (eval_dataloader e)) = Inr (acc, mc)"
    and s': "s' = s\<lparr>heap := h, reported := reported s @ [epoch_score (task_name e) acc mc]\<rparr>"
    and b': "best' = update_best best (epoch_score (task_name e) acc mc)"
    by blast
  have "m = h ! model" using get_Inr[OF m] by simp
  then show ?thesis using tl ev s' b' by auto
qed

lemma run_epochs_trace:
  assumes "run_epochs e pt pr model epochs (opt, s, best) = Inr (opt', s', best')"
  shows "\<exists>hs scores.
           epoch_heaps e pt pr model epochs (opt, heap s) = Inr hs
         \<and> length hs = length epochs \<and> length scores = length epochs
         \<and> heap s' = last (heap s # hs)
         \<and> reported s' = reported s @ scores
         \<and> list_all2 (\<lambda>h sc. \<exists>acc mc.
               eval_metrics (map (\<lambda>(input_ids, label_ids).
                                     (predict e pt pr (h ! model) input_ids, label_ids))
                                 (eval_dataloader e)) = Inr (acc, mc)
               \<and> sc = epoch_score (task_name e) acc mc) hs scores
         \<and> best' = foldl update_best best scores"
  using assms
proof (induction epochs arbitrary: opt s best)
  case Nil
  then show ?case by simp
next
  case (Cons epoch_i epochs)
  let ?R = "\<lambda>h sc. \<exists>acc mc.
               eval_metrics (map (\<lambda>(input_ids, label_ids).
                                     (predict e pt pr (h ! model) input_ids, label_ids))
                                 (eval_dataloader e)) = Inr (acc, mc)
               \<and> sc = epoch_score (task_name e) acc mc"
  from Cons.prems obtain opt1 s1 best1 where
    ep: "run_epoch e pt pr model epoch_i (opt, s, best) = Inr (opt1, s1, best1)"
    and rest: "run_epochs e pt pr model epochs (opt1, s1, best1) = Inr (opt', s', best')"
    by (auto dest!: bindE_Inr)
  from run_epoch_trace[OF ep] obtain acc mc where
    tl: "train_loop e pt pr model 0 (train_dataloader e epoch_i) (opt, heap s) = Inr (opt1, heap s1)"
    and ev: "eval_metrics (map (\<lambda>(input_ids, label_ids).
                                     (predict e pt pr (heap s1 ! model) input_ids, label_ids))
                                 (eval_dataloader e)) = Inr (acc, mc)"
    and r1: "reported s1 = reported s @ [epoch_score (task_name e) acc mc]"
    and b1: "best1 = update_best best (epoch_score (task_name e) acc mc)"
    by blast
  from Cons.IH[OF rest] obtain hs scores where
    eh: "epoch_heaps e pt pr model epochs (opt1, heap s1) = Inr hs"
    and l: "length hs = length epochs" "length scores = length epochs"
    and h': "heap s' = last (heap s1 # hs)"
    and r2: "reported s' = reported s1 @ scores"
    and la: "list_all2 ?R hs scores"
    and b2: "best' = foldl update_best best1 scores"
    by blast
  let ?sc = "epoch_score (task_name e) acc mc"
  have 1: "epoch_heaps e pt pr model (epoch_i # epochs) (opt, heap s) = Inr (heap s1 # hs)"
    by (simp add: tl eh bindE_def)
  have 2: "length (heap s1 # hs) = length (epoch_i # epochs)"
    "length (?sc # scores) = length (epoch_i # epochs)" using l by simp_all
  have 3: "heap s' = last (heap s # heap s1 # hs)" using h' by simp
  have 4: "reported s' = reported s @ (?sc # scores)" using r1 r2 by simp
  have "?R (heap s1) ?sc" using ev by blast
  then have 5: "list_all2 ?R (heap s1 # hs) (?sc # scores)" using la by simp
  have 6: "best' = foldl update_best best (?sc # scores)" using b1 b2 by simp
  show ?case
    by (rule exI[of _ "heap s1 # hs"], rule exI[of _ "?sc # scores"]) (intro conjI 1 2 3 4 5 6)
qed

lemma eval_after_train_trace:
  assumes "eval_after_train e self_model pt pr s = Inr (best, s')"
  shows "\<exists>hs scores.
           epoch_heaps e pt pr (length (heap s)) [0..<num_train_epochs e]
             (new_optimizer e (heap s ! self_model), heap s @ [heap s ! self_model]) = Inr hs
         \<and> length hs = num_train_epochs e \<and> length scores = num_train_epochs e
         \<and> heap s' = last ((heap s @ [heap s ! self_model]) # hs)
         \<and> reported s' = reported s @ scores
         \<and> list_all2 (\<lambda>h sc. \<exists>acc mc.
               eval_metrics (map (\<lambda>(input_ids, label_ids).
                                     (predict e pt pr (h ! length (heap s)) input_ids, label_ids))
                                 (eval_dataloader e)) = Inr (acc, mc)
               \<and> sc = epoch_score (task_name e) acc mc) hs scores
         \<and> best = foldl update_best (Fin 0) scores"
proof -
  let ?model = "length (heap s)"
  let ?h = "heap s @ [heap s ! self_model]"
  from assms obtain opt where
    run: "run_epochs e pt pr ?model [0..<num_train_epochs e]
               (new_optimizer e (?h ! ?model), s\<lparr>heap := ?h\<rparr>, Fin 0) = Inr (opt, s', best)"
    unfolding eval_after_train_def deepcopy_def
    by (auto dest!: bindE_Inr get_Inr split: prod.splits)
  have m: "?h ! ?model = heap s ! self_model" by simp
  show ?thesis using run_epochs_trace[OF run] unfolding m by simp
qed

lemma mapE_argmax_total:
  assumes "[] \<notin> set out"
  shows "\<exists>ps. mapE argmax out = Inr ps \<and> length ps = length out"
  using assms
proof (induction out)
  case Nil
  then show ?case by simp
next
  case (Cons r out)
  then obtain ps where ps: "mapE argmax out = Inr ps" "length ps = length out" by auto
  from Cons.prems obtain x xs where "r = x # xs" by (cases r) auto
  then have "\<exists>p. argmax r = Inr p" by (simp add: argmax_def)
  then show ?case using ps by (auto simp: bindE_def)
qed

lemma accuracy_total:
  assumes "length logits = length label_ids" "[] \<notin> set logits"
  shows "\<exists>res. accuracy logits label_ids = Inr res"
proof -
  from mapE_argmax_total[OF assms(2)] obtain ps where
    "mapE argmax logits = Inr ps" "length ps = length logits" by blast
  then show ?thesis using assms(1) by (simp add: accuracy_def bindE_def Let_def)
qed

lemma eval_metrics_returns:
  assumes "batches \<noteq> []"
    "\<forall>b\<in>set batches. length (fst b) = length (snd b) \<and> [] \<notin> set (fst b)"
  shows "\<exists>acc mc. eval_metrics batches = Inr (acc, mc)"
  using assms(1) by (rule eval_metrics_total) (use assms(2) accuracy_total in blast)

lemma epoch_score_by_task:
  "(t = ''cola'' \<longrightarrow> epoch_score t acc mc = (if mc = NaN then Fin 0 else mc))
   \<and> (py_lower t \<noteq> ''cola'' \<longrightarrow> epoch_score t acc mc = acc)"
  using py_lower_cola by (auto simp: epoch_score_def)

lemma toy_env_with_fields:
  "task_name (toy_env_with t logits) = t" "num_train_epochs (toy_env_with t logits) = 1"
  "gradient_accumulation_steps (toy_env_with t logits) = 1"
  "train_dataloader (toy_env_with t logits) i = [()]"
  "eval_dataloader (toy_env_with t logits) = [((), [0, 1])]"
  "new_optimizer (toy_env_with t logits) m = ()"
  "forward_backward (toy_env_with t logits) pt pr opt m b = opt"
  "optimizer_step (toy_env_with t logits) opt m = (opt, m)"
  "predict (toy_env_with t logits) pt pr m x = logits"
  by (simp_all add: toy_env_with_def toy_env_def)

lemma toy_with_train_step:
  "train_step (toy_env_with t logits) vanilla_plan half_rates (Suc 0) 0 () ((), [toy_bert, toy_bert])
     = Inr ((), [toy_bert, toy_bert_pruned])"
  by (simp add: train_step_def get_def bindE_def toy_env_with_fields sparse_pass_toy)

lemma toy_with_run:
  assumes "eval_metrics [(logits, [0, 1])] = Inr (acc, mc)"
  shows "eval_after_train (toy_env_with t logits) 0 vanilla_plan half_rates toy_state
   = Inr (update_best (Fin 0) (epoch_score t acc mc),
          \<lparr>heap = [toy_bert, toy_bert_pruned], reported = [epoch_score t acc mc]\<rparr>)"
proof -
  have ep: "run_epoch (toy_env_with t logits) vanilla_plan half_rates (Suc 0) 0
     ((), \<lparr>heap = [toy_bert, toy_bert], reported = []\<rparr>, Fin 0)
   = Inr ((), \<lparr>heap = [toy_bert, toy_bert_pruned], reported = [epoch_score t acc mc]\<rparr>,
          update_best (Fin 0) (epoch_score t acc mc))"
    by (simp add: run_epoch_def toy_env_with_fields toy_with_train_step bindE_def get_def assms Let_def)
  show ?thesis
    by (simp add: eval_after_train_def deepcopy_def get_def bindE_def toy_state_def
        toy_env_with_fields ep)
qed

lemma eval_both_class1: "eval_metrics [([[0, 1], [0, 1]], [0, 1])] = Inr (Fin (1/2), NaN)"
  by (simp add: eval_metrics_def accuracy_def argmax_def bindE_def matthews_def i64_id)

lemma toy_run_upper:
  "eval_after_train toy_env_upper 0 vanilla_plan half_rates toy_state
   = Inr (Fin (1/2), \<lparr>heap = [toy_bert, toy_bert_pruned], reported = [Fin (1/2)]\<rparr>)"
  unfolding toy_env_upper_def using toy_with_run[OF eval_both_class1, of "''CoLA''"]
  by (simp add: epoch_score_def update_best_def)

lemma toy_run_sst:
  "eval_after_train toy_env_sst 0 vanilla_plan half_rates toy_state
   = Inr (Fin (1/2), \<lparr>heap = [toy_bert, toy_bert_pruned], reported = [Fin (1/2)]\<rparr>)"
  unfolding toy_env_sst_def using toy_with_run[OF eval_both_class1, of "''sst-2''"]
  by (simp add: epoch_score_def update_best_def)

section \<open>The claims\<close>

text \<open>
  C1. The claim is that MultiHead pruning ranks the 12 head-rows by their sum of absolute
  values, as Channel pruning ranks rows, and zeroes whole head-rows. \<^verbatim>\<open>do_sparse_mh\<close>
  passes \<^verbatim>\<open>w.abs()\<close> itself to \<^verbatim>\<open>topk\<close>, without the row sums that \<^verbatim>\<open>do_sparse_chn\<close>
  builds, so the selection is made column by column. On \<open>skewed_value\<close> with keep ratio
  \<open>9/10\<close> (one head to prune) the result has head-row 0 zeroed at offset 0 and kept at
  offset 1, and head-row 11 kept at offset 0 and zeroed at offset 1: no head-row is
  zeroed as a whole.
\<close>

theorem do_sparse_mh_splits_heads:
  "case do_sparse_mh skewed_value (1 - 9/10) None of
     Inl e \<Rightarrow> False
   | Inr (w', ix) \<Rightarrow> data w' ! 0 = 0 \<and> data w' ! 1 = 2
                    \<and> data w' ! 540672 = 12 \<and> data w' ! 540673 = 0"
proof -
  let ?z = "zero_cols (heads skewed_value) (tabs (heads skewed_value)) 1"
  have k: "nat \<lfloor>(1 - 9/10) * (12::real)\<rfloor> = 1" by simp
  have res: "do_sparse_mh skewed_value (1 - 9/10) None =
        Inr (?z\<lparr>rows := 768, cols := 768\<rparr>,
             tensor_of 1 49152 (\<lambda>i j. argsort (col (tabs (heads skewed_value)) j) ! i))"
    using do_sparse_mh_None[OF skewed_value_shape, of "1 - 9/10"] unfolding k by simp
  have "data ?z ! 0 = 0"
    by (simp add: nth_zero_cols skewed_col0 smallest_col0)
  moreover have "data ?z ! 1 = 2"
    by (simp add: nth_zero_cols skewed_col1 smallest_col1 skewed_value_nth)
  moreover have "data ?z ! 540672 = 12"
    by (simp add: nth_zero_cols skewed_col0 smallest_col0 skewed_value_nth)
  moreover have "data ?z ! 540673 = 0"
    by (simp add: nth_zero_cols skewed_col1 smallest_col1)
  ultimately show ?thesis unfolding res by simp
qed

text \<open>
  C2. The claim is that every slot whose type is Channel has Channel pruning applied,
  the output projection (slot 3) included. The loop compares the type of slot 3 with
  \<^verbatim>\<open>'chn'\<close>, where slots 0, 1 and 2 compare with \<^verbatim>\<open>'channel'\<close>. With the plan
  \<open>channel_plan\<close> and keep ratio one half in every slot, the pass over a layer prunes the
  attention output and the intermediate weight by rows and leaves the output weight as
  it was, although Channel pruning would zero its first row.
\<close>

theorem output_channel_not_pruned:
  "sparse_layer channel_plan [1/2, 1/2, 1/2, 1/2] 0 toy_layer
     = Inr \<lparr>self_query = w23_entries_pruned, self_key = w23_entries_pruned,
            self_value = w23_entries_pruned,
            attention_output_dense = w23_rows_pruned, intermediate_dense = w23_rows_pruned,
            output_dense = w23\<rparr>
   \<and> do_sparse_chn w23 (1 - 1/2) = Inr w23_rows_pruned \<and> w23_rows_pruned \<noteq> w23"
proof -
  have "w23_rows_pruned \<noteq> w23" by (simp add: w23_def w23_rows_pruned_def)
  then show ?thesis
    by (simp add: sparse_layer_def sparse_slot0_def sparse_slot1_def sparse_slot2_def
      sparse_slot3_def get_def channel_plan_def toy_layer_def bindE_def do_sparse_w23
      do_sparse_chn_w23 in_place_w23)
qed

text \<open>
  C3. Vanilla pruning of a \<open>d1\<close> by \<open>d2\<close> matrix with keep ratio \<open>r\<close> in \<open>(0, 1]\<close>, that
  is \<^verbatim>\<open>do_sparse(w, 1 - r, ...)\<close> as the training loop calls it, overwrites with zero
  exactly the positions of a set \<open>S\<close> of \<open>k = floor((1 - r) * d1 * d2)\<close> entries and
  leaves every other entry as it was; no entry of \<open>S\<close> has a larger absolute value than
  an entry outside \<open>S\<close>. For the 768 by 768 all-ones matrix and keep ratio one half the
  result has 294912 zeros and 294912 ones.
\<close>

theorem do_sparse_zeroes_bottom_k:
  assumes "wf w" "rows w = d1" "cols w = d2" "0 < r" "r \<le> 1"
  shows "(let k = nat \<lfloor>(1 - r) * real (d1 * d2)\<rfloor>; S = smallest (map abs (data w)) k in
            do_sparse w (1 - r) =
              Inr (w\<lparr>data := map (\<lambda>p. if p \<in> S then 0 else data w ! p) [0..<d1 * d2]\<rparr>)
          \<and> S \<subseteq> {..<d1 * d2} \<and> card S = k
          \<and> (\<forall>p\<in>S. \<forall>q<d1 * d2. q \<notin> S \<longrightarrow> \<bar>data w ! p\<bar> \<le> \<bar>data w ! q\<bar>))
       \<and> (case do_sparse (ones_matrix 768 768) (1 - 1/2) of
             Inl e \<Rightarrow> False
           | Inr w' \<Rightarrow> rows w' = 768 \<and> cols w' = 768
                       \<and> zero_count w' = 294912 \<and> one_count w' = 294912)"
proof -
  let ?k = "nat \<lfloor>(1 - r) * real (d1 * d2)\<rfloor>"
  let ?xs = "map abs (data w)"
  let ?S = "smallest ?xs ?k"
  have ratio: "0 \<le> 1 - r" "1 - r \<le> 1" using assms by simp_all
  have len: "length ?xs = d1 * d2" using assms by (simp add: wf_def)
  have res: "do_sparse w (1 - r) =
             Inr (w\<lparr>data := map (\<lambda>p. if p \<in> ?S then 0 else data w ! p) [0..<d1 * d2]\<rparr>)"
    using do_sparse_result[OF assms(1) ratio] assms(2,3) by simp
  have kle: "?k \<le> d1 * d2" by (rule nat_floor_fraction[OF ratio])
  have sub: "?S \<subseteq> {..<d1 * d2}" using smallest_subset[of ?xs ?k] len by simp
  have card: "card ?S = ?k" using card_smallest[of ?k ?xs] kle len by simp
  have low: "\<bar>data w ! p\<bar> \<le> \<bar>data w ! q\<bar>" if "p \<in> ?S" "q < d1 * d2" "q \<notin> ?S" for p q
  proof -
    have "p < d1 * d2" using that(1) sub by auto
    moreover have "?xs ! p \<le> ?xs ! q" using that len by (intro smallest_le) simp_all
    ultimately show ?thesis using that(2) len by simp
  qed
  obtain w' where w': "do_sparse (ones_matrix 768 768) (1 - 1/2) = Inr w'" "rows w' = 768"
      "cols w' = 768" "zero_count w' = nat \<lfloor>(1 - 1/2) * real (768 * 768 :: nat)\<rfloor>"
      "one_count w' = 768 * 768 - nat \<lfloor>(1 - 1/2) * real (768 * 768 :: nat)\<rfloor>"
    using do_sparse_ones[of "1 - 1/2" 768 768] by auto
  have "nat \<lfloor>(1 - 1/2) * real (768 * 768 :: nat)\<rfloor> = 294912" by simp
  then have inst: "zero_count w' = 294912" "one_count w' = 294912" using w'(4,5) by simp_all
  show ?thesis
    unfolding Let_def using res sub card low w'(1,2,3) inst by simp
qed

theorem do_sparse_zeroes_bottom_k_witness:
  "wf w23 \<and> rows w23 = 2 \<and> cols w23 = 3 \<and> (0::real) < 1/2 \<and> (1/2::real) \<le> 1
   \<and> do_sparse w23 (1 - 1/2) = Inr \<lparr>rows = 2, cols = 3, data = [3, 0, 0, -4, 0, 6]\<rparr>
   \<and> card (smallest (map abs (data w23)) 3) = 3"
proof -
  have h: "wf w23" "rows w23 = 2" "cols w23 = 3" by (simp_all add: wf_def w23_def)
  have k: "nat \<lfloor>(1 - 1/2) * real (2 * 3 :: nat)\<rfloor> = 3" by simp
  have r: "do_sparse w23 (1 - 1/2) = Inr \<lparr>rows = 2, cols = 3, data = [3, 0, 0, -4, 0, 6]\<rparr>"
    unfolding w23_def by code_simp
  from do_sparse_zeroes_bottom_k[OF h, of "1/2"] have "card (smallest (map abs (data w23)) 3) = 3"
    unfolding Let_def k by simp
  then show ?thesis using h r by simp
qed

text \<open>
  C4. Channel pruning of a \<open>d1\<close> by \<open>d2\<close> matrix (with at least one column) with keep
  ratio \<open>r\<close> in \<open>(0, 1]\<close>, that is \<^verbatim>\<open>do_sparse_chn(w, 1 - r, ...)\<close>, overwrites with zero
  every entry of the rows of a set \<open>S\<close> of \<open>k = floor((1 - r) * d1)\<close> rows and changes no
  entry of another row; no row of \<open>S\<close> has a larger sum of absolute values than a row
  outside \<open>S\<close>.
\<close>

theorem do_sparse_chn_zeroes_rows:
  assumes "wf w" "rows w = d1" "cols w = d2" "0 < d2" "0 < r" "r \<le> 1"
  shows "let k = nat \<lfloor>(1 - r) * real d1\<rfloor>; S = smallest (row_magnitudes w) k in
            do_sparse_chn w (1 - r) =
              Inr (w\<lparr>data := map (\<lambda>p. if p div d2 \<in> S then 0 else data w ! p) [0..<d1 * d2]\<rparr>)
          \<and> S \<subseteq> {..<d1} \<and> card S = k
          \<and> (\<forall>i\<in>S. \<forall>i'<d1. i' \<notin> S \<longrightarrow> row_magnitudes w ! i \<le> row_magnitudes w ! i')"
proof -
  let ?k = "nat \<lfloor>(1 - r) * real d1\<rfloor>"
  let ?S = "smallest (row_magnitudes w) ?k"
  have ratio: "0 \<le> 1 - r" "1 - r \<le> 1" using assms by simp_all
  have len: "length (row_magnitudes w) = d1" using assms by (simp add: length_row_magnitudes)
  have res: "do_sparse_chn w (1 - r) =
             Inr (w\<lparr>data := map (\<lambda>p. if p div d2 \<in> ?S then 0 else data w ! p) [0..<d1 * d2]\<rparr>)"
    using do_sparse_chn_result[OF assms(1) _ ratio] assms(2,3,4) by simp
  have kle: "?k \<le> d1" by (rule nat_floor_fraction[OF ratio])
  have sub: "?S \<subseteq> {..<d1}" using smallest_subset[of "row_magnitudes w" ?k] len by simp
  have card: "card ?S = ?k" using card_smallest[of ?k "row_magnitudes w"] kle len by simp
  have low: "row_magnitudes w ! i \<le> row_magnitudes w ! i'" if "i \<in> ?S" "i' < d1" "i' \<notin> ?S" for i i'
    using that len by (intro smallest_le) simp_all
  show ?thesis
    unfolding Let_def using res sub card low by simp
qed

theorem do_sparse_chn_zeroes_rows_witness:
  "wf w23 \<and> rows w23 = 2 \<and> cols w23 = 3 \<and> (0::nat) < 3 \<and> (0::real) < 1/2 \<and> (1/2::real) \<le> 1
   \<and> do_sparse_chn w23 (1 - 1/2) = Inr \<lparr>rows = 2, cols = 3, data = [0, 0, 0, -4, 1/2, 6]\<rparr>
   \<and> card (smallest (row_magnitudes w23) 1) = 1"
proof -
  have h: "wf w23" "rows w23 = 2" "cols w23 = 3" by (simp_all add: wf_def w23_def)
  have k: "nat \<lfloor>(1 - 1/2) * real (2 :: nat)\<rfloor> = 1" by simp
  have r: "do_sparse_chn w23 (1 - 1/2) = Inr \<lparr>rows = 2, cols = 3, data = [0, 0, 0, -4, 1/2, 6]\<rparr>"
    unfolding w23_def by code_simp
  from do_sparse_chn_zeroes_rows[OF h, of "1/2"] have "card (smallest (row_magnitudes w23) 1) = 1"
    unfolding Let_def k by simp
  then show ?thesis using h r by simp
qed

text \<open>
  C5. For a rate vector of length 48 whose parameter-count-weighted mean is not zero and
  a target \<open>s\<close>, \<^verbatim>\<open>balance\<close> returns every rate multiplied by \<open>s\<close> over that mean; the
  weights cycle through \<open>3 * 768 * 768\<close>, \<open>768 * 768\<close>, \<open>768 * 3072\<close>, \<open>3072 * 768\<close>; the
  weighted mean of the result is \<open>s\<close>; and 48 rates of one half with target three
  tenths give 48 rates of three tenths.
\<close>

theorem balance_rescales_to_target:
  assumes "length rates = 48" "weighted_mean rates \<noteq> 0"
  shows "balance rates s = Inr (map (\<lambda>x. x / weighted_mean rates * s) rates)
       \<and> weighted_mean (map (\<lambda>x. x / weighted_mean rates * s) rates) = s
       \<and> whole_param = [3 * 768 * 768, 768 * 768, 768 * 3072, 3072 * 768]
       \<and> balance (replicate 48 (1/2)) (3/10) = Inr (replicate 48 (3/10))"
proof -
  have a: "balance rates s = Inr (map (\<lambda>x. x / weighted_mean rates * s) rates)"
    by (rule balance_eq[OF assms])
  have "map (\<lambda>x. x / weighted_mean rates * s) rates = map (\<lambda>x. x * (s / weighted_mean rates)) rates"
    by simp
  then have b: "weighted_mean (map (\<lambda>x. x / weighted_mean rates * s) rates) = s"
    using weighted_mean_scale[OF assms(1), of "s / weighted_mean rates"] assms(2) by simp
  have c: "whole_param = [3 * 768 * 768, 768 * 768, 768 * 3072, 3072 * 768]"
    by (simp add: whole_param_def)
  have "balance (replicate 48 (1/2)) (3/10)
        = Inr (map (\<lambda>x. x / weighted_mean (replicate 48 (1/2)) * (3/10)) (replicate 48 (1/2::real)))"
    by (rule balance_eq) (simp_all add: weighted_mean_const)
  then have d: "balance (replicate 48 (1/2)) (3/10) = Inr (replicate 48 (3/10))"
    by (simp add: weighted_mean_const)
  show ?thesis using a b c d by simp
qed

theorem balance_rescales_to_target_witness:
  "length mixed_rates = 48 \<and> weighted_mean mixed_rates \<noteq> 0
   \<and> balance mixed_rates (3/10) = Inr (replicate 24 (3/20) @ replicate 24 (9/20))
   \<and> weighted_mean (replicate 24 (3/20) @ replicate 24 (9/20)) = 3/10"
proof -
  have l: "length mixed_rates = 48" by (simp add: mixed_rates_def)
  have s: "mixed_rates = map (\<lambda>i. if i < 24 then 1/4 else 3/4) [0..<48]"
    unfolding mixed_rates_def by (intro nth_equalityI) (auto simp: nth_append)
  have m: "weighted_mean mixed_rates = 1/2"
    unfolding weighted_mean_def s by (simp add: upt_rec whole_param_def)
  then have n: "weighted_mean mixed_rates \<noteq> 0" by simp
  have e: "map (\<lambda>x. x / weighted_mean mixed_rates * (3/10)) mixed_rates
           = replicate 24 (3/20) @ replicate 24 (9/20)"
    unfolding m by (simp add: mixed_rates_def)
  show ?thesis
    using balance_rescales_to_target[OF l n, of "3/10"] l n unfolding e by simp
qed

text \<open>
  C6. For a keep ratio \<open>r\<close> in \<open>(0, 1]\<close>, each of the three pruning functions, applied to
  its own result with the same ratio, returns that result unchanged: \<^verbatim>\<open>do_sparse\<close> on
  every matrix, \<^verbatim>\<open>do_sparse_chn\<close> on every matrix with at least one column, and
  \<^verbatim>\<open>do_sparse_mh\<close> (without a given index tensor) on every matrix of \<open>12 * 64 * 768\<close>
  elements, the only ones it accepts. In each case the first application succeeds.
\<close>

theorem pruning_idempotent:
  assumes "wf w" "0 < r" "r \<le> 1"
  shows "(\<exists>w'. do_sparse w (1 - r) = Inr w' \<and> do_sparse w' (1 - r) = Inr w')
       \<and> (0 < cols w \<longrightarrow>
            (\<exists>w'. do_sparse_chn w (1 - r) = Inr w' \<and> do_sparse_chn w' (1 - r) = Inr w'))
       \<and> (rows w * cols w = 12 * 64 * 768 \<longrightarrow>
            (\<exists>w' ix ix'. do_sparse_mh w (1 - r) None = Inr (w', ix)
                        \<and> do_sparse_mh w' (1 - r) None = Inr (w', ix')))"
proof -
  have ratio: "0 \<le> 1 - r" "1 - r \<le> 1" using assms by simp_all
  have v: "\<exists>w'. do_sparse w (1 - r) = Inr w' \<and> do_sparse w' (1 - r) = Inr w'"
    using do_sparse_result[OF assms(1) ratio] do_sparse_idem[OF assms(1) ratio] by simp
  have c: "\<exists>w'. do_sparse_chn w (1 - r) = Inr w' \<and> do_sparse_chn w' (1 - r) = Inr w'" if "0 < cols w"
    using do_sparse_chn_result[OF assms(1) that ratio] do_sparse_chn_idem[OF assms(1) ratio] by simp
  have m: "\<exists>w' ix ix'. do_sparse_mh w (1 - r) None = Inr (w', ix)
                        \<and> do_sparse_mh w' (1 - r) None = Inr (w', ix')"
    if "rows w * cols w = 12 * 64 * 768"
  proof -
    have n: "rows w * cols w = 589824" using that by simp
    from do_sparse_mh_None[OF assms(1) n ratio] obtain w' ix
      where "do_sparse_mh w (1 - r) None = Inr (w', ix)" by blast
    then show ?thesis using do_sparse_mh_idem[OF assms(1) ratio] by blast
  qed
  show ?thesis using v c m by blast
qed

theorem pruning_idempotent_witness:
  "wf (ones_matrix 768 768) \<and> (0::real) < 1/2 \<and> (1/2::real) \<le> 1
   \<and> 0 < cols (ones_matrix 768 768)
   \<and> rows (ones_matrix 768 768) * cols (ones_matrix 768 768) = 12 * 64 * 768
   \<and> (\<exists>w'. do_sparse (ones_matrix 768 768) (1 - 1/2) = Inr w' \<and> do_sparse w' (1 - 1/2) = Inr w')
   \<and> (\<exists>w'. do_sparse_chn (ones_matrix 768 768) (1 - 1/2) = Inr w'
             \<and> do_sparse_chn w' (1 - 1/2) = Inr w')
   \<and> (\<exists>w' ix ix'. do_sparse_mh (ones_matrix 768 768) (1 - 1/2) None = Inr (w', ix)
                   \<and> do_sparse_mh w' (1 - 1/2) None = Inr (w', ix'))"
proof -
  have h: "wf (ones_matrix 768 768)" by (simp add: wf_def ones_matrix_def)
  have c: "0 < cols (ones_matrix 768 768)" by (simp add: ones_matrix_def)
  have n: "rows (ones_matrix 768 768) * cols (ones_matrix 768 768) = 12 * 64 * 768"
    by (simp add: ones_matrix_def)
  show ?thesis
    using pruning_idempotent[OF h, of "1/2"] h c n by simp
qed

text \<open>
  C7, as the code has it. When \<^verbatim>\<open>eval_after_train\<close> returns, every epoch has trained
  the copy, evaluated it as it was after that training and reported one score. When the
  task name is \<^verbatim>\<open>cola\<close> the score is the correlation of that evaluation, with 0 in place
  of a correlation that is not a number; when the task is not the cola task it is the
  accuracy of that evaluation. \<^verbatim>\<open>best_acc\<close> starts at 0 and is replaced by a score only
  when the score is larger: the value returned is 0 or one of the reported scores, is not
  below 0, and no reported score is above it. The evaluation itself returns whenever
  there is a batch and every batch has one label for every row of logits and no empty
  row, whatever the correlations are.
\<close>

theorem best_score_is_max_with_zero:
  assumes "eval_after_train e self_model prune_type prune_rate s = Inr (best, s')"
  shows "(\<exists>hs scores.
            epoch_heaps e prune_type prune_rate (length (heap s)) [0..<num_train_epochs e]
              (new_optimizer e (heap s ! self_model), heap s @ [heap s ! self_model]) = Inr hs
          \<and> length hs = num_train_epochs e \<and> length scores = num_train_epochs e
          \<and> heap s' = last ((heap s @ [heap s ! self_model]) # hs)
          \<and> reported s' = reported s @ scores
          \<and> list_all2 (\<lambda>h sc. \<exists>acc mc.
                eval_metrics (map (\<lambda>(input_ids, label_ids).
                                      (predict e prune_type prune_rate (h ! length (heap s)) input_ids,
                                       label_ids))
                                  (eval_dataloader e)) = Inr (acc, mc)
                \<and> (task_name e = ''cola'' \<longrightarrow> sc = (if mc = NaN then Fin 0 else mc))
                \<and> (py_lower (task_name e) \<noteq> ''cola'' \<longrightarrow> sc = acc)) hs scores
          \<and> (best = Fin 0 \<or> best \<in> set scores)
          \<and> \<not> fgt (Fin 0) best
          \<and> (\<forall>x\<in>set scores. \<not> fgt x best))
       \<and> (batches \<noteq> []
            \<and> (\<forall>b\<in>set batches. length (fst b) = length (snd b) \<and> [] \<notin> set (fst b))
            \<longrightarrow> (\<exists>acc mc. eval_metrics batches = Inr (acc, mc)))"
proof -
  let ?R = "\<lambda>h sc. \<exists>acc mc.
                eval_metrics (map (\<lambda>(input_ids, label_ids).
                                      (predict e prune_type prune_rate (h ! length (heap s)) input_ids,
                                       label_ids))
                                  (eval_dataloader e)) = Inr (acc, mc)
                \<and> sc = epoch_score (task_name e) acc mc"
  let ?Q = "\<lambda>h sc. \<exists>acc mc.
                eval_metrics (map (\<lambda>(input_ids, label_ids).
                                      (predict e prune_type prune_rate (h ! length (heap s)) input_ids,
                                       label_ids))
                                  (eval_dataloader e)) = Inr (acc, mc)
                \<and> (task_name e = ''cola'' \<longrightarrow> sc = (if mc = NaN then Fin 0 else mc))
                \<and> (py_lower (task_name e) \<noteq> ''cola'' \<longrightarrow> sc = acc)"
  from eval_after_train_trace[OF assms] obtain hs scores where
    eh: "epoch_heaps e prune_type prune_rate (length (heap s)) [0..<num_train_epochs e]
              (new_optimizer e (heap s ! self_model), heap s @ [heap s ! self_model]) = Inr hs"
    and l: "length hs = num_train_epochs e" "length scores = num_train_epochs e"
    and h': "heap s' = last ((heap s @ [heap s ! self_model]) # hs)"
    and r: "reported s' = reported s @ scores"
    and la: "list_all2 ?R hs scores"
    and b: "best = foldl update_best (Fin 0) scores"
    by blast
  have conv: "?Q h sc" if "?R h sc" for h sc
  proof -
    from that obtain acc mc where
      ev: "eval_metrics (map (\<lambda>(input_ids, label_ids).
                                (predict e prune_type prune_rate (h ! length (heap s)) input_ids,
                                 label_ids))
                            (eval_dataloader e)) = Inr (acc, mc)"
      and sc: "sc = epoch_score (task_name e) acc mc"
      by blast
    have c: "task_name e = ''cola'' \<longrightarrow> sc = (if mc = NaN then Fin 0 else mc)"
      and o: "py_lower (task_name e) \<noteq> ''cola'' \<longrightarrow> sc = acc"
      unfolding sc using epoch_score_by_task[of "task_name e" acc mc] by simp_all
    show ?thesis
      by (rule exI[of _ acc], rule exI[of _ mc]) (intro conjI ev c o)
  qed
  have la': "list_all2 ?Q hs scores"
    by (rule list_all2_mono[OF la]) (rule conv)
  have f1: "best = Fin 0 \<or> best \<in> set scores"
    and f2: "best = Fin 0 \<or> fgt best (Fin 0)"
    and f3: "\<forall>x\<in>set scores. \<not> fgt x best"
    unfolding b using foldl_update_best[of "Fin 0" scores] by simp_all
  have z: "\<not> fgt (Fin 0) best"
  proof (cases "best = Fin 0")
    case True
    then show ?thesis by (simp add: fgt_irrefl)
  next
    case False
    then have "fgt best (Fin 0)" using f2 by simp
    then show ?thesis by (rule fgt_asym)
  qed
  have run: "\<exists>hs scores.
            epoch_heaps e prune_type prune_rate (length (heap s)) [0..<num_train_epochs e]
              (new_optimizer e (heap s ! self_model), heap s @ [heap s ! self_model]) = Inr hs
          \<and> length hs = num_train_epochs e \<and> length scores = num_train_epochs e
          \<and> heap s' = last ((heap s @ [heap s ! self_model]) # hs)
          \<and> reported s' = reported s @ scores
          \<and> list_all2 ?Q hs scores
          \<and> (best = Fin 0 \<or> best \<in> set scores)
          \<and> \<not> fgt (Fin 0) best
          \<and> (\<forall>x\<in>set scores. \<not> fgt x best)"
    by (rule exI[of _ hs], rule exI[of _ scores]) (intro conjI eh l h' r la' f1 z f3)
  have ret: "batches \<noteq> []
            \<and> (\<forall>b\<in>set batches. length (fst b) = length (snd b) \<and> [] \<notin> set (fst b))
            \<longrightarrow> (\<exists>acc mc. eval_metrics batches = Inr (acc, mc))"
    using eval_metrics_returns[of batches] by simp
  show ?thesis by (rule conjI[OF run ret])
qed

theorem best_score_is_max_with_zero_witness:
  "eval_after_train toy_env 0 vanilla_plan half_rates toy_state
     = Inr (Fin 0, \<lparr>heap = [toy_bert, toy_bert_pruned], reported = [Fin (-1)]\<rparr>)
   \<and> task_name toy_env = ''cola''
   \<and> eval_metrics [([[0, 1], [1, 0]], [0, 1])] = Inr (Fin 0, Fin (-1))
   \<and> eval_after_train toy_env_sst 0 vanilla_plan half_rates toy_state
     = Inr (Fin (1/2), \<lparr>heap = [toy_bert, toy_bert_pruned], reported = [Fin (1/2)]\<rparr>)
   \<and> py_lower (task_name toy_env_sst) \<noteq> ''cola''
   \<and> eval_metrics [([[0, 1], [0, 1]], [0, 1])] = Inr (Fin (1/2), NaN)
   \<and> [mixed_batch] \<noteq> [] \<and> length (fst mixed_batch) = length (snd mixed_batch)
   \<and> [] \<notin> set (fst mixed_batch)
   \<and> eval_metrics [mixed_batch] = Inr (Fin 1, Fin 1)
   \<and> \<not> fgt (Fin 0) (Fin 0) \<and> \<not> fgt (Fin (-1)) (Fin 0) \<and> \<not> fgt (Fin 0) (Fin (1/2))"
proof -
  have t: "task_name toy_env = ''cola''" "py_lower (task_name toy_env_sst) \<noteq> ''cola''"
    by (simp_all add: toy_env_fields toy_env_sst_def toy_env_with_fields py_lower_sst)
  have m: "[mixed_batch] \<noteq> []" "length (fst mixed_batch) = length (snd mixed_batch)"
    "[] \<notin> set (fst mixed_batch)"
    by (simp_all add: mixed_batch_def)
  have ac: "\<forall>b\<in>set [mixed_batch]. all_correct b" by (simp add: all_correct_mixed_batch)
  have em: "eval_metrics [mixed_batch] = Inr (Fin 1, Fin 1)"
    by (rule all_correct_both_classes_one[OF ac]) (simp_all add: counts_small_batches)
  from best_score_is_max_with_zero[OF toy_run, of "[mixed_batch]"]
  have w1: "\<not> fgt (Fin 0) (Fin 0)" by blast
  from best_score_is_max_with_zero[OF toy_run_sst, of "[mixed_batch]"]
  have w2: "\<not> fgt (Fin 0) (Fin (1/2))" by blast
  have w3: "\<not> fgt (Fin (-1)) (Fin 0)" by simp
  show ?thesis
    by (intro conjI toy_run t toy_eval toy_run_sst eval_both_class1 m em w1 w2 w3)
qed

text \<open>
  C7 as stated fails twice. In the small run the task name is \<^verbatim>\<open>cola\<close>, the only epoch
  scores \<open>-1\<close> (both predictions are wrong), and the run returns 0, which is not the
  largest epoch score seen. Under the task name \<^verbatim>\<open>CoLA\<close>, which selects the cola task
  as well, the correlation of the epoch is not a number and the accuracy is one half:
  the reported score is one half, the accuracy, and not 0.
\<close>

theorem best_score_not_an_epoch_score_counterexample:
  "eval_after_train toy_env 0 vanilla_plan half_rates toy_state
     = Inr (Fin 0, \<lparr>heap = [toy_bert, toy_bert_pruned], reported = [Fin (-1)]\<rparr>)
   \<and> task_name toy_env = ''cola''
   \<and> eval_metrics [([[0, 1], [1, 0]], [0, 1])] = Inr (Fin 0, Fin (-1))
   \<and> eval_after_train toy_env_upper 0 vanilla_plan half_rates toy_state
     = Inr (Fin (1/2), \<lparr>heap = [toy_bert, toy_bert_pruned], reported = [Fin (1/2)]\<rparr>)
   \<and> task_name toy_env_upper = ''CoLA'' \<and> py_lower (task_name toy_env_upper) = ''cola''
   \<and> eval_metrics [([[0, 1], [0, 1]], [0, 1])] = Inr (Fin (1/2), NaN)"
proof -
  have t: "task_name toy_env = ''cola''" "task_name toy_env_upper = ''CoLA''"
    "py_lower (task_name toy_env_upper) = ''cola''"
    by (simp_all add: toy_env_fields toy_env_upper_def toy_env_with_fields py_lower_upper)
  show ?thesis
    by (intro conjI toy_run t toy_eval toy_run_upper eval_both_class1)
qed

text \<open>
  C8, as the code has it. None of the pruning functions looks at the ratio itself. An
  error is raised when \<^verbatim>\<open>do_sparse_mh\<close> is given a weight whose element count is not
  \<open>12 * 64 * 768\<close> (the reshape fails), and when the number of entries to select,
  \<open>k = int((1 - r) * d1)\<close>, is negative or larger than the number \<open>d1\<close> of rows ranked
  (\<^verbatim>\<open>topk\<close> fails): these are the only errors of \<^verbatim>\<open>do_sparse\<close>, of \<^verbatim>\<open>do_sparse_chn\<close> on a
  matrix with at least one column, and of \<^verbatim>\<open>do_sparse_mh\<close> without a given index tensor.
\<close>

theorem pruning_errors_from_selection_size:
  assumes "wf w"
  shows "(rows w * cols w \<noteq> 12 * 64 * 768 \<longrightarrow> do_sparse_mh w (1 - r) ixo = Inl RuntimeError)
       \<and> (rows w * cols w = 12 * 64 * 768 \<longrightarrow>
            (do_sparse_mh w (1 - r) None = Inl RuntimeError)
              = (py_int ((1 - r) * 12) < 0 \<or> 12 < py_int ((1 - r) * 12)))
       \<and> ((do_sparse w (1 - r) = Inl RuntimeError)
              = (py_int ((1 - r) * real (rows w * cols w)) < 0
                 \<or> int (rows w * cols w) < py_int ((1 - r) * real (rows w * cols w))))
       \<and> (0 < cols w \<longrightarrow>
            (do_sparse_chn w (1 - r) = Inl RuntimeError)
              = (py_int ((1 - r) * real (rows w)) < 0 \<or> int (rows w) < py_int ((1 - r) * real (rows w))))"
proof -
  have mh1: "do_sparse_mh w (1 - r) ixo = Inl RuntimeError" if "rows w * cols w \<noteq> 12 * 64 * 768"
    using that by (intro do_sparse_mh_wrong_size) simp
  have mh2: "(do_sparse_mh w (1 - r) None = Inl RuntimeError)
              = (py_int ((1 - r) * 12) < 0 \<or> 12 < py_int ((1 - r) * 12))"
    if "rows w * cols w = 12 * 64 * 768"
  proof (cases "py_int ((1 - r) * 12) < 0 \<or> 12 < py_int ((1 - r) * 12)")
    case True
    then show ?thesis using do_sparse_mh_out_of_range[of "1 - r" w] by simp
  next
    case False
    have n: "rows w * cols w = 589824" using that by simp
    show ?thesis using do_sparse_mh_in_range[OF assms n, of "1 - r"] False by simp
  qed
  have v: "(do_sparse w (1 - r) = Inl RuntimeError)
              = (py_int ((1 - r) * real (rows w * cols w)) < 0
                 \<or> int (rows w * cols w) < py_int ((1 - r) * real (rows w * cols w)))"
  proof (cases "py_int ((1 - r) * real (rows w * cols w)) < 0
                 \<or> int (rows w * cols w) < py_int ((1 - r) * real (rows w * cols w))")
    case True
    then show ?thesis using do_sparse_out_of_range[of "1 - r" w] by simp
  next
    case False
    then show ?thesis using do_sparse_in_range[OF assms, of "1 - r"] by simp
  qed
  have c: "(do_sparse_chn w (1 - r) = Inl RuntimeError)
              = (py_int ((1 - r) * real (rows w)) < 0 \<or> int (rows w) < py_int ((1 - r) * real (rows w)))"
    if "0 < cols w"
  proof (cases "py_int ((1 - r) * real (rows w)) < 0 \<or> int (rows w) < py_int ((1 - r) * real (rows w))")
    case True
    then show ?thesis using do_sparse_chn_out_of_range[of w "1 - r"] by simp
  next
    case False
    then show ?thesis using do_sparse_chn_in_range[OF assms that, of "1 - r"] by simp
  qed
  show ?thesis using mh1 mh2 v c by blast
qed

theorem pruning_errors_from_selection_size_witness:
  "wf (ones_matrix 768 768) \<and> wf w23
   \<and> rows (ones_matrix 768 768) * cols (ones_matrix 768 768) = 12 * 64 * 768
   \<and> rows w23 * cols w23 \<noteq> 12 * 64 * 768 \<and> 0 < cols w23
   \<and> do_sparse_mh w23 (1 - 1/2) None = Inl RuntimeError
   \<and> do_sparse_mh (ones_matrix 768 768) (1 - 2) None = Inl RuntimeError
   \<and> do_sparse w23 (1 - 2) = Inl RuntimeError
   \<and> do_sparse_chn w23 (1 - (-1)) = Inl RuntimeError"
proof -
  have h: "wf (ones_matrix 768 768)" "wf w23" by (simp_all add: wf_def ones_matrix_def w23_def)
  have s: "rows (ones_matrix 768 768) * cols (ones_matrix 768 768) = 12 * 64 * 768"
    "rows w23 * cols w23 \<noteq> 12 * 64 * 768" "0 < cols w23" "rows w23 = 2" "cols w23 = 3"
    by (simp_all add: ones_matrix_def w23_def)
  have "do_sparse_mh w23 (1 - 1/2) None = Inl RuntimeError"
    using pruning_errors_from_selection_size[OF h(2), of "1/2" None] s by simp
  moreover have "do_sparse_mh (ones_matrix 768 768) (1 - 2) None = Inl RuntimeError"
    using pruning_errors_from_selection_size[OF h(1), of 2 None] s by (simp add: py_int_def)
  moreover have "do_sparse w23 (1 - 2) = Inl RuntimeError"
    using pruning_errors_from_selection_size[OF h(2), of 2 None] s by (simp add: py_int_def)
  moreover have "do_sparse_chn w23 (1 - (-1)) = Inl RuntimeError"
    using pruning_errors_from_selection_size[OF h(2), of "-1" None] s by (simp add: py_int_def)
  ultimately show ?thesis using h s by simp
qed

text \<open>
  C8 as stated fails: keep ratio 0 and keep ratio \<open>11/10\<close> lie outside \<open>(0, 1]\<close>, and the
  calls return without an error, the first with every entry zeroed, the second with the
  matrix unchanged.
\<close>

theorem keep_ratio_not_checked_counterexample:
  "do_sparse w23 (1 - 0) = Inr \<lparr>rows = 2, cols = 3, data = [0, 0, 0, 0, 0, 0]\<rparr>
   \<and> do_sparse w23 (1 - 11/10) = Inr w23
   \<and> do_sparse_chn w23 (1 - 0) = Inr \<lparr>rows = 2, cols = 3, data = [0, 0, 0, 0, 0, 0]\<rparr>"
  unfolding w23_def by code_simp

text \<open>
  C9, as the code has it. In an evaluation epoch of a two-class task in which every
  prediction equals its label, the accuracy is 1 as soon as there is an example. The
  correlation is computed for every batch, from 64-bit counts, and the results are
  averaged: it is 1 when there is a batch and every batch holds both classes with the
  square of the product of its two class counts below \<open>2 ^ 63\<close>, and it is not a number
  as soon as one batch holds examples of one class only.
\<close>

theorem all_correct_epoch_scores:
  assumes "\<forall>b\<in>set batches. all_correct b"
  shows "((\<exists>b\<in>set batches. snd b \<noteq> []) \<longrightarrow> (\<exists>mc. eval_metrics batches = Inr (Fin 1, mc)))
       \<and> (batches \<noteq> []
            \<and> (\<forall>b\<in>set batches. 0 < class1 b * class0 b \<and> (class1 b * class0 b)\<^sup>2 < 2 ^ 63)
            \<longrightarrow> eval_metrics batches = Inr (Fin 1, Fin 1))
       \<and> (batches \<noteq> [] \<and> (\<exists>b\<in>set batches. class1 b * class0 b = 0)
            \<longrightarrow> (\<exists>acc. eval_metrics batches = Inr (acc, NaN)))"
  using all_correct_accuracy_one[OF assms] all_correct_both_classes_one[OF assms]
    all_correct_single_class_nan[OF assms]
  by blast

theorem all_correct_epoch_scores_witness:
  "all_correct mixed_batch \<and> all_correct single_class_batch
   \<and> snd mixed_batch \<noteq> [] \<and> [mixed_batch] \<noteq> []
   \<and> 0 < class1 mixed_batch * class0 mixed_batch
   \<and> (class1 mixed_batch * class0 mixed_batch)\<^sup>2 < 2 ^ 63
   \<and> class1 single_class_batch * class0 single_class_batch = 0
   \<and> eval_metrics [mixed_batch] = Inr (Fin 1, Fin 1)
   \<and> eval_metrics [mixed_batch, single_class_batch] = Inr (Fin 1, NaN)"
proof -
  have a: "\<forall>b\<in>set [mixed_batch]. all_correct b"
    and b: "\<forall>b\<in>set [mixed_batch, single_class_batch]. all_correct b"
    by (simp_all add: all_correct_mixed_batch all_correct_single_class_batch)
  have ne: "snd mixed_batch \<noteq> []" by (simp add: mixed_batch_def)
  have one: "eval_metrics [mixed_batch] = Inr (Fin 1, Fin 1)"
    using all_correct_epoch_scores[OF a] by (simp add: counts_small_batches)
  have "(\<exists>mc. eval_metrics [mixed_batch, single_class_batch] = Inr (Fin 1, mc))
        \<and> (\<exists>acc. eval_metrics [mixed_batch, single_class_batch] = Inr (acc, NaN))"
    using all_correct_epoch_scores[OF b] ne by (simp add: counts_small_batches)
  then have two: "eval_metrics [mixed_batch, single_class_batch] = Inr (Fin 1, NaN)" by auto
  show ?thesis
    using one two ne all_correct_mixed_batch all_correct_single_class_batch
    by (simp add: counts_small_batches)
qed

text \<open>
  C9 as stated fails. In an evaluation set with both classes, the batch
  \<open>single_class_batch\<close> makes the correlation of the epoch not a number, which the score
  turns into 0. In \<open>large_batch\<close>, with 55109 examples of each class, the product under
  the square root wraps to a negative number, and the correlation is not a number
  either. Every prediction equals its label in both.
\<close>

theorem single_class_or_large_batch_counterexample:
  "all_correct mixed_batch \<and> all_correct single_class_batch \<and> all_correct large_batch
   \<and> eval_metrics [mixed_batch, single_class_batch] = Inr (Fin 1, NaN)
   \<and> epoch_score ''cola'' (Fin 1) NaN = Fin 0
   \<and> eval_metrics [large_batch] = Inr (Fin 1, NaN)"
  by (simp add: all_correct_mixed_batch all_correct_single_class_batch all_correct_large_batch
      eval_mixed_then_single eval_large_batch epoch_score_def)

text \<open>
  C10. \<^verbatim>\<open>eval_after_train\<close> trains and prunes the model that \<^verbatim>\<open>copy.deepcopy\<close> put on the
  heap. When it returns, the model that \<^verbatim>\<open>self.model\<close> refers to, and every other
  object that was on the heap before the call, is what it was before the call, for
  every prune plan, optimizer and data.
\<close>

theorem self_model_unchanged:
  assumes "eval_after_train e self_model prune_type prune_rate s = Inr (best, s')"
  shows "self_model < length (heap s) \<and> heap s' ! self_model = heap s ! self_model
       \<and> take (length (heap s)) (heap s') = heap s"
proof -
  from eval_after_train_effect[OF assms] have
    sm: "self_model < length (heap s)" and len: "length (heap s') = Suc (length (heap s))"
    and same: "\<forall>r<length (heap s). heap s' ! r = heap s ! r"
    by blast+
  have "take (length (heap s)) (heap s') = heap s"
    using len same by (intro nth_equalityI) simp_all
  then show ?thesis using sm same by simp
qed

theorem self_model_unchanged_witness:
  "eval_after_train toy_env 0 vanilla_plan half_rates toy_state
     = Inr (Fin 0, \<lparr>heap = [toy_bert, toy_bert_pruned], reported = [Fin (-1)]\<rparr>)
   \<and> (0::nat) < length (heap toy_state)
   \<and> heap \<lparr>heap = [toy_bert, toy_bert_pruned], reported = [Fin (-1)]\<rparr> ! 0 = heap toy_state ! 0
   \<and> heap \<lparr>heap = [toy_bert, toy_bert_pruned], reported = [Fin (-1)]\<rparr> ! 1 \<noteq> heap toy_state ! 0"
proof -
  have "w23_entries_pruned \<noteq> w23" by (simp add: w23_def w23_entries_pruned_def)
  then have "toy_layer_pruned \<noteq> toy_layer" by (simp add: toy_layer_def toy_layer_pruned_def)
  then have ne: "toy_bert_pruned \<noteq> toy_bert" by (simp add: toy_bert_def toy_bert_pruned_def)
  show ?thesis
    using self_model_unchanged[OF toy_run] toy_run ne by (simp add: toy_state_def)
qed

end
